theory Spec2Isabelle
  imports Main "HOL-Library.Multiset"
begin

section \<open>Data model (main.go, lines 14-89)\<close>

text \<open>
  The structs of \<^verbatim>\<open>main.go\<close> become records with the source's field names. Go strings
  are byte sequences, hence \<^typ>\<open>string\<close>. The counters and ids are Go \<^verbatim>\<open>int\<close>s; every
  increment of a counter also stores one more heap object in the corresponding map, so a
  counter cannot reach the machine's word size before memory is exhausted, and ids are
  modelled as unbounded \<^typ>\<open>int\<close>.
\<close>

record Complaint =
  ID :: int
  Title :: string
  Summary :: string
  Rating :: int
  UserID :: int
  UserName :: string
  IsResolved :: bool
  CreatedAt :: string
  ResolvedAt :: string

record User =
  ID :: int
  SecretCode :: string
  Name :: string
  Email :: string
  Complaints :: "Complaint list"
  IsAdmin :: bool

record LoginRequest =
  SecretCode :: string

record RegisterRequest =
  Name :: string
  Email :: string

record SubmitComplaintRequest =
  SecretCode :: string
  Title :: string
  Summary :: string
  Rating :: int

record ViewComplaintRequest =
  SecretCode :: string
  ComplaintID :: int

record ResolveComplaintRequest =
  SecretCode :: string
  ComplaintID :: int

record GetComplaintsRequest =
  SecretCode :: string

text \<open>The \<^verbatim>\<open>Data interface{}\<close> field of a response holds one of four shapes, or nothing.\<close>

datatype Payload =
  NoData
  | UserData User
  | ComplaintData Complaint
  | ComplaintsData "Complaint list"

record APIResponse =
  Success :: bool
  Message :: string
  Data :: Payload
  Error :: string

text \<open>What a handler writes: the HTTP status code and the JSON body.\<close>

type_synonym Response = "nat \<times> APIResponse"

text \<open>
  What a handler reads from \<^verbatim>\<open>*http.Request\<close>: the method, and the outcome of
  \<^verbatim>\<open>json.NewDecoder(r.Body).Decode(&req)\<close> (\<open>None\<close> when \<^verbatim>\<open>err != nil\<close>). A decoded
  number fits a machine word; the model admits every integer, which only adds requests.
\<close>

record 'a Request =
  Method :: string
  Body :: "'a option"

text \<open>
  \<^verbatim>\<open>Storage\<close>: the two maps hold pointers, and every object is stored under exactly one
  key, so the map itself serves as the heap and a key serves as the pointer. The mutex is
  left out: handlers are modelled as running one after the other.
\<close>

record Storage =
  users :: "int \<rightharpoonup> User"
  complaints :: "int \<rightharpoonup> Complaint"
  userIDGen :: int
  compIDGen :: int

definition storage :: Storage where
  "storage = \<lparr>users = Map.empty, complaints = Map.empty, userIDGen = 0, compIDGen = 0\<rparr>"

section \<open>What the runtime supplies\<close>

text \<open>
  A reading of \<^verbatim>\<open>time.Now()\<close>: the Unix seconds and the civil fields that
  \<^verbatim>\<open>Format\<close> prints.
\<close>

record Time =
  Unix :: int
  Year :: int
  Month :: nat
  Day :: nat
  Hour :: nat
  Minute :: nat
  Second :: nat

text \<open>
  A handler call also depends on the order in which \<^verbatim>\<open>range\<close> visits the keys of each
  map, which Go leaves unspecified and varies from one loop to the next. The order is an
  input of the call.
\<close>

record Env =
  Now :: Time
  userOrder :: "int list"
  complaintOrder :: "int list"

definition rangeOrder :: "('k \<rightharpoonup> 'v) \<Rightarrow> 'k list \<Rightarrow> bool" where
  "rangeOrder m ks = (distinct ks \<and> set ks = dom m)"

definition legalEnv :: "Storage \<Rightarrow> Env \<Rightarrow> bool" where
  "legalEnv st e =
     (rangeOrder (users st) (userOrder e) \<and> rangeOrder (complaints st) (complaintOrder e))"

text \<open>\<^verbatim>\<open>for k, v := range m\<close>: the entries in the order of the visit.\<close>

definition rangeMap :: "('k \<rightharpoonup> 'v) \<Rightarrow> 'k list \<Rightarrow> ('k \<times> 'v) list" where
  "rangeMap m ks = List.map_filter (\<lambda>k. map_option (Pair k) (m k)) ks"

section \<open>Library functions the handlers call\<close>

subsection \<open>Decimal formatting\<close>

fun showNat :: "nat \<Rightarrow> string" where
  "showNat n =
     (if n < 10 then [char_of (48 + n)]
      else showNat (n div 10) @ [char_of (48 + n mod 10)])"

declare showNat.simps [simp del]

text \<open>The verb \<^verbatim>\<open>%d\<close> of \<^verbatim>\<open>fmt.Sprintf\<close>.\<close>

definition formatInt :: "int \<Rightarrow> string" where
  "formatInt i = (if i < 0 then CHR ''-'' # showNat (nat (- i)) else showNat (nat i))"

text \<open>
  \<^verbatim>\<open>appendInt\<close> of package \<^verbatim>\<open>time\<close>: sign, then the digits zero-padded to the width.
\<close>

definition appendInt :: "int \<Rightarrow> nat \<Rightarrow> string" where
  "appendInt x width =
     (if x < 0 then ''-'' else '''') @
     replicate (width - length (showNat (nat \<bar>x\<bar>))) CHR ''0'' @ showNat (nat \<bar>x\<bar>)"

subsection \<open>\<^verbatim>\<open>strings.TrimSpace\<close>\<close>

text \<open>
  White space is what \<^verbatim>\<open>unicode.IsSpace\<close> accepts: the six ASCII characters and, in
  UTF-8, U+0085, U+00A0, U+1680, U+2000 to U+200A, U+2028, U+2029, U+202F, U+205F, U+3000.
\<close>

definition asciiSpace :: "char \<Rightarrow> bool" where
  "asciiSpace c = (c \<in> set [CHR 0x09, CHR 0x0A, CHR 0x0B, CHR 0x0C, CHR 0x0D, CHR 0x20])"

definition wideSpaces :: "string list" where
  "wideSpaces =
     [[CHR 0xC2, CHR 0x85], [CHR 0xC2, CHR 0xA0], [CHR 0xE1, CHR 0x9A, CHR 0x80],
      [CHR 0xE2, CHR 0x80, CHR 0x80], [CHR 0xE2, CHR 0x80, CHR 0x81],
      [CHR 0xE2, CHR 0x80, CHR 0x82], [CHR 0xE2, CHR 0x80, CHR 0x83],
      [CHR 0xE2, CHR 0x80, CHR 0x84], [CHR 0xE2, CHR 0x80, CHR 0x85],
      [CHR 0xE2, CHR 0x80, CHR 0x86], [CHR 0xE2, CHR 0x80, CHR 0x87],
      [CHR 0xE2, CHR 0x80, CHR 0x88], [CHR 0xE2, CHR 0x80, CHR 0x89],
      [CHR 0xE2, CHR 0x80, CHR 0x8A], [CHR 0xE2, CHR 0x80, CHR 0xA8],
      [CHR 0xE2, CHR 0x80, CHR 0xA9], [CHR 0xE2, CHR 0x80, CHR 0xAF],
      [CHR 0xE2, CHR 0x81, CHR 0x9F], [CHR 0xE3, CHR 0x80, CHR 0x80]]"

text \<open>The number of bytes of the white-space character that starts \<open>s\<close>; 0 if none does.\<close>

definition spaceWidth :: "string \<Rightarrow> nat" where
  "spaceWidth s =
     (case s of
        [] \<Rightarrow> 0
      | c # _ \<Rightarrow>
          if asciiSpace c then 1
          else if take 2 s \<in> set wideSpaces then 2
          else if take 3 s \<in> set wideSpaces then 3
          else 0)"

function trimLeft :: "string \<Rightarrow> string" where
  "trimLeft s = (if spaceWidth s = 0 then s else trimLeft (drop (spaceWidth s) s))"
  by pat_completeness auto
termination
  by (relation "measure length") (auto simp: spaceWidth_def split: list.splits if_splits)

declare trimLeft.simps [simp del]

text \<open>The same from the end: the bytes of the last character, read backwards.\<close>

definition spaceWidthEnd :: "string \<Rightarrow> nat" where
  "spaceWidthEnd s =
     (case rev s of
        [] \<Rightarrow> 0
      | c # _ \<Rightarrow>
          if asciiSpace c then 1
          else if rev (take 2 (rev s)) \<in> set wideSpaces then 2
          else if rev (take 3 (rev s)) \<in> set wideSpaces then 3
          else 0)"

function trimRight :: "string \<Rightarrow> string" where
  "trimRight s =
     (if spaceWidthEnd s = 0 then s else trimRight (take (length s - spaceWidthEnd s) s))"
  by pat_completeness auto
termination
  by (relation "measure length") (auto simp: spaceWidthEnd_def split: list.splits if_splits)

declare trimRight.simps [simp del]

definition TrimSpace :: "string \<Rightarrow> string" where
  "TrimSpace s = trimRight (trimLeft s)"

section \<open>Helper functions (main.go, lines 91-135)\<close>

text \<open>\<^verbatim>\<open>fmt.Sprintf("SEC_%d_%d", time.Now().Unix(), storage.userIDGen+1)\<close>\<close>

definition generateSecretCode :: "Storage \<Rightarrow> Time \<Rightarrow> string" where
  "generateSecretCode st t =
     ''SEC_'' @ formatInt (Unix t) @ ''_'' @ formatInt (userIDGen st + 1)"

text \<open>\<^verbatim>\<open>time.Now().Format("2006-01-02 15:04:05")\<close>\<close>

definition getCurrentTime :: "Time \<Rightarrow> string" where
  "getCurrentTime t =
     appendInt (Year t) 4 @ ''-'' @ appendInt (int (Month t)) 2 @ ''-'' @
     appendInt (int (Day t)) 2 @ '' '' @ appendInt (int (Hour t)) 2 @ '':'' @
     appendInt (int (Minute t)) 2 @ '':'' @ appendInt (int (Second t)) 2"

text \<open>
  Both lookups return the first user met by the \<^verbatim>\<open>range\<close> loop, as a pointer: here the
  key under which the user is stored, together with the user read there.
\<close>

definition findUserBySecretCode :: "Storage \<Rightarrow> int list \<Rightarrow> string \<Rightarrow> (int \<times> User) option" where
  "findUserBySecretCode st ks secretCode =
     find (\<lambda>(k, user). User.SecretCode user = secretCode) (rangeMap (users st) ks)"

definition findUserByEmail :: "Storage \<Rightarrow> int list \<Rightarrow> string \<Rightarrow> (int \<times> User) option" where
  "findUserByEmail st ks email =
     find (\<lambda>(k, user). User.Email user = email) (rangeMap (users st) ks)"

definition respondWithJSON :: "nat \<Rightarrow> APIResponse \<Rightarrow> Response" where
  "respondWithJSON statusCode response = (statusCode, response)"

definition respondWithError :: "nat \<Rightarrow> string \<Rightarrow> Response" where
  "respondWithError statusCode message =
     respondWithJSON statusCode \<lparr>Success = False, Message = '''', Data = NoData, Error = message\<rparr>"

abbreviation MethodPost :: string where "MethodPost \<equiv> ''POST''"
abbreviation StatusOK :: nat where "StatusOK \<equiv> 200"
abbreviation StatusCreated :: nat where "StatusCreated \<equiv> 201"
abbreviation StatusBadRequest :: nat where "StatusBadRequest \<equiv> 400"
abbreviation StatusUnauthorized :: nat where "StatusUnauthorized \<equiv> 401"
abbreviation StatusForbidden :: nat where "StatusForbidden \<equiv> 403"
abbreviation StatusNotFound :: nat where "StatusNotFound \<equiv> 404"
abbreviation StatusMethodNotAllowed :: nat where "StatusMethodNotAllowed \<equiv> 405"
abbreviation StatusConflict :: nat where "StatusConflict \<equiv> 409"

section \<open>Handlers (main.go, lines 139-503)\<close>

definition registerHandler ::
  "Storage \<Rightarrow> Env \<Rightarrow> RegisterRequest Request \<Rightarrow> Storage \<times> Response" where
  "registerHandler st e r =
     (if Method r \<noteq> MethodPost then (st, respondWithError StatusMethodNotAllowed ''Method not allowed'')
      else case Body r of
        None \<Rightarrow> (st, respondWithError StatusBadRequest ''Invalid JSON format'')
      | Some req \<Rightarrow>
          if TrimSpace (RegisterRequest.Name req) = '''' then
            (st, respondWithError StatusBadRequest ''Name is required'')
          else if TrimSpace (RegisterRequest.Email req) = '''' then
            (st, respondWithError StatusBadRequest ''Email is required'')
          else if findUserByEmail st (userOrder e) (RegisterRequest.Email req) \<noteq> None then
            (st, respondWithError StatusConflict ''User with this email already exists'')
          else
            let st1 = st\<lparr>userIDGen := userIDGen st + 1\<rparr>;
                newUser = \<lparr>User.ID = userIDGen st1,
                           User.SecretCode = generateSecretCode st1 (Now e),
                           User.Name = TrimSpace (RegisterRequest.Name req),
                           User.Email = TrimSpace (RegisterRequest.Email req),
                           Complaints = [],
                           IsAdmin = False\<rparr>;
                st2 = st1\<lparr>users := (users st1)(User.ID newUser \<mapsto> newUser)\<rparr>
            in (st2, respondWithJSON StatusCreated
                      \<lparr>Success = True, Message = ''User registered successfully'',
                       Data = UserData newUser, Error = ''''\<rparr>))"

definition loginHandler ::
  "Storage \<Rightarrow> Env \<Rightarrow> LoginRequest Request \<Rightarrow> Storage \<times> Response" where
  "loginHandler st e r =
     (if Method r \<noteq> MethodPost then (st, respondWithError StatusMethodNotAllowed ''Method not allowed'')
      else case Body r of
        None \<Rightarrow> (st, respondWithError StatusBadRequest ''Invalid JSON format'')
      | Some req \<Rightarrow>
          if TrimSpace (LoginRequest.SecretCode req) = '''' then
            (st, respondWithError StatusBadRequest ''Secret code is required'')
          else (case findUserBySecretCode st (userOrder e) (LoginRequest.SecretCode req) of
            None \<Rightarrow> (st, respondWithError StatusUnauthorized ''Invalid secret code'')
          | Some (p, user) \<Rightarrow>
              (st, respondWithJSON StatusOK
                     \<lparr>Success = True, Message = ''Login successful'',
                      Data = UserData user, Error = ''''\<rparr>)))"

definition submitComplaintHandler ::
  "Storage \<Rightarrow> Env \<Rightarrow> SubmitComplaintRequest Request \<Rightarrow> Storage \<times> Response" where
  "submitComplaintHandler st e r =
     (if Method r \<noteq> MethodPost then (st, respondWithError StatusMethodNotAllowed ''Method not allowed'')
      else case Body r of
        None \<Rightarrow> (st, respondWithError StatusBadRequest ''Invalid JSON format'')
      | Some req \<Rightarrow>
          if TrimSpace (SubmitComplaintRequest.SecretCode req) = '''' then
            (st, respondWithError StatusBadRequest ''Secret code is required'')
          else if TrimSpace (SubmitComplaintRequest.Title req) = '''' then
            (st, respondWithError StatusBadRequest ''Title is required'')
          else if TrimSpace (SubmitComplaintRequest.Summary req) = '''' then
            (st, respondWithError StatusBadRequest ''Summary is required'')
          else if SubmitComplaintRequest.Rating req < 1 \<or> SubmitComplaintRequest.Rating req > 10 then
            (st, respondWithError StatusBadRequest ''Rating must be between 1 and 10'')
          else (case findUserBySecretCode st (userOrder e) (SubmitComplaintRequest.SecretCode req) of
            None \<Rightarrow> (st, respondWithError StatusUnauthorized ''Invalid secret code'')
          | Some (p, user) \<Rightarrow>
              let st1 = st\<lparr>compIDGen := compIDGen st + 1\<rparr>;
                  newComplaint = \<lparr>Complaint.ID = compIDGen st1,
                                  Complaint.Title = TrimSpace (SubmitComplaintRequest.Title req),
                                  Complaint.Summary = TrimSpace (SubmitComplaintRequest.Summary req),
                                  Complaint.Rating = SubmitComplaintRequest.Rating req,
                                  UserID = User.ID user,
                                  UserName = User.Name user,
                                  IsResolved = False,
                                  CreatedAt = getCurrentTime (Now e),
                                  ResolvedAt = ''''\<rparr>;
                  st2 = st1\<lparr>complaints := (complaints st1)(Complaint.ID newComplaint \<mapsto> newComplaint)\<rparr>;
                  st3 = st2\<lparr>users := (users st2)(p \<mapsto> user\<lparr>Complaints := Complaints user @ [newComplaint]\<rparr>)\<rparr>
              in (st3, respondWithJSON StatusCreated
                        \<lparr>Success = True, Message = ''Complaint submitted successfully'',
                         Data = ComplaintData newComplaint, Error = ''''\<rparr>)))"

text \<open>The loop of lines 310-315: the complaints of one user, in the order of the visit.\<close>

definition userComplaints :: "Storage \<Rightarrow> int list \<Rightarrow> int \<Rightarrow> Complaint list" where
  "userComplaints st ks uid =
     map snd (filter (\<lambda>(k, complaint). UserID complaint = uid) (rangeMap (complaints st) ks))"

text \<open>The loop of lines 356-359.\<close>

definition allComplaints :: "Storage \<Rightarrow> int list \<Rightarrow> Complaint list" where
  "allComplaints st ks = map snd (rangeMap (complaints st) ks)"

definition getAllComplaintsForUserHandler ::
  "Storage \<Rightarrow> Env \<Rightarrow> GetComplaintsRequest Request \<Rightarrow> Storage \<times> Response" where
  "getAllComplaintsForUserHandler st e r =
     (if Method r \<noteq> MethodPost then (st, respondWithError StatusMethodNotAllowed ''Method not allowed'')
      else case Body r of
        None \<Rightarrow> (st, respondWithError StatusBadRequest ''Invalid JSON format'')
      | Some req \<Rightarrow>
          if TrimSpace (GetComplaintsRequest.SecretCode req) = '''' then
            (st, respondWithError StatusBadRequest ''Secret code is required'')
          else (case findUserBySecretCode st (userOrder e) (GetComplaintsRequest.SecretCode req) of
            None \<Rightarrow> (st, respondWithError StatusUnauthorized ''Invalid secret code'')
          | Some (p, user) \<Rightarrow>
              (st, respondWithJSON StatusOK
                     \<lparr>Success = True, Message = ''User complaints retrieved successfully'',
                      Data = ComplaintsData (userComplaints st (complaintOrder e) (User.ID user)),
                      Error = ''''\<rparr>)))"

definition getAllComplaintsForAdminHandler ::
  "Storage \<Rightarrow> Env \<Rightarrow> GetComplaintsRequest Request \<Rightarrow> Storage \<times> Response" where
  "getAllComplaintsForAdminHandler st e r =
     (if Method r \<noteq> MethodPost then (st, respondWithError StatusMethodNotAllowed ''Method not allowed'')
      else case Body r of
        None \<Rightarrow> (st, respondWithError StatusBadRequest ''Invalid JSON format'')
      | Some req \<Rightarrow>
          if TrimSpace (GetComplaintsRequest.SecretCode req) = '''' then
            (st, respondWithError StatusBadRequest ''Secret code is required'')
          else (case findUserBySecretCode st (userOrder e) (GetComplaintsRequest.SecretCode req) of
            None \<Rightarrow> (st, respondWithError StatusUnauthorized ''Invalid secret code'')
          | Some (p, user) \<Rightarrow>
              if \<not> IsAdmin user then
                (st, respondWithError StatusForbidden ''Access denied. Admin privileges required'')
              else
                (st, respondWithJSON StatusOK
                       \<lparr>Success = True, Message = ''All complaints retrieved successfully'',
                        Data = ComplaintsData (allComplaints st (complaintOrder e)),
                        Error = ''''\<rparr>)))"

definition viewComplaintHandler ::
  "Storage \<Rightarrow> Env \<Rightarrow> ViewComplaintRequest Request \<Rightarrow> Storage \<times> Response" where
  "viewComplaintHandler st e r =
     (if Method r \<noteq> MethodPost then (st, respondWithError StatusMethodNotAllowed ''Method not allowed'')
      else case Body r of
        None \<Rightarrow> (st, respondWithError StatusBadRequest ''Invalid JSON format'')
      | Some req \<Rightarrow>
          if TrimSpace (ViewComplaintRequest.SecretCode req) = '''' then
            (st, respondWithError StatusBadRequest ''Secret code is required'')
          else if ViewComplaintRequest.ComplaintID req \<le> 0 then
            (st, respondWithError StatusBadRequest ''Valid complaint ID is required'')
          else (case findUserBySecretCode st (userOrder e) (ViewComplaintRequest.SecretCode req) of
            None \<Rightarrow> (st, respondWithError StatusUnauthorized ''Invalid secret code'')
          | Some (p, user) \<Rightarrow>
              (case complaints st (ViewComplaintRequest.ComplaintID req) of
                 None \<Rightarrow> (st, respondWithError StatusNotFound ''Complaint not found'')
               | Some complaint \<Rightarrow>
                   if \<not> IsAdmin user \<and> UserID complaint \<noteq> User.ID user then
                     (st, respondWithError StatusForbidden
                            ''Access denied. You can only view your own complaints'')
                   else
                     (st, respondWithJSON StatusOK
                            \<lparr>Success = True, Message = ''Complaint retrieved successfully'',
                             Data = ComplaintData complaint, Error = ''''\<rparr>))))"

text \<open>
  The loop of lines 470-476: the first copy with the given id is marked resolved, then
  \<^verbatim>\<open>break\<close>.
\<close>

fun resolveCopy :: "int \<Rightarrow> string \<Rightarrow> Complaint list \<Rightarrow> Complaint list" where
  "resolveCopy cid resolvedAt [] = []"
| "resolveCopy cid resolvedAt (c # cs) =
     (if Complaint.ID c = cid then c\<lparr>IsResolved := True, ResolvedAt := resolvedAt\<rparr> # cs
      else c # resolveCopy cid resolvedAt cs)"

definition resolveComplaintHandler ::
  "Storage \<Rightarrow> Env \<Rightarrow> ResolveComplaintRequest Request \<Rightarrow> Storage \<times> Response" where
  "resolveComplaintHandler st e r =
     (if Method r \<noteq> MethodPost then (st, respondWithError StatusMethodNotAllowed ''Method not allowed'')
      else case Body r of
        None \<Rightarrow> (st, respondWithError StatusBadRequest ''Invalid JSON format'')
      | Some req \<Rightarrow>
          if TrimSpace (ResolveComplaintRequest.SecretCode req) = '''' then
            (st, respondWithError StatusBadRequest ''Secret code is required'')
          else if ResolveComplaintRequest.ComplaintID req \<le> 0 then
            (st, respondWithError StatusBadRequest ''Valid complaint ID is required'')
          else (case findUserBySecretCode st (userOrder e) (ResolveComplaintRequest.SecretCode req) of
            None \<Rightarrow> (st, respondWithError StatusUnauthorized ''Invalid secret code'')
          | Some (p, user) \<Rightarrow>
              if \<not> IsAdmin user then
                (st, respondWithError StatusForbidden ''Access denied. Admin privileges required'')
              else (case complaints st (ResolveComplaintRequest.ComplaintID req) of
                None \<Rightarrow> (st, respondWithError StatusNotFound ''Complaint not found'')
              | Some complaint0 \<Rightarrow>
                  if IsResolved complaint0 then
                    (st, respondWithError StatusBadRequest ''Complaint is already resolved'')
                  else
                    let complaint = complaint0\<lparr>IsResolved := True,
                                               ResolvedAt := getCurrentTime (Now e)\<rparr>;
                        st1 = st\<lparr>complaints :=
                                   (complaints st)(ResolveComplaintRequest.ComplaintID req \<mapsto> complaint)\<rparr>;
                        st2 = (case users st1 (UserID complaint) of
                                 None \<Rightarrow> st1
                               | Some userOwner \<Rightarrow>
                                   st1\<lparr>users := (users st1)(UserID complaint \<mapsto>
                                     userOwner\<lparr>Complaints :=
                                       resolveCopy (Complaint.ID complaint) (ResolvedAt complaint)
                                         (Complaints userOwner)\<rparr>)\<rparr>)
                    in (st2, respondWithJSON StatusOK
                              \<lparr>Success = True, Message = ''Complaint resolved successfully'',
                               Data = ComplaintData complaint, Error = ''''\<rparr>))))"

text \<open>\<^verbatim>\<open>createDefaultAdmin\<close>, lines 487-503.\<close>

definition createDefaultAdmin :: "Storage \<Rightarrow> Storage" where
  "createDefaultAdmin st =
     (let st1 = st\<lparr>userIDGen := userIDGen st + 1\<rparr>;
          adminUser = \<lparr>User.ID = userIDGen st1,
                       User.SecretCode = ''ADMIN_SECRET_123'',
                       User.Name = ''System Administrator'',
                       User.Email = ''admin@complaintportal.com'',
                       Complaints = [],
                       IsAdmin = True\<rparr>
      in st1\<lparr>users := (users st1)(User.ID adminUser \<mapsto> adminUser)\<rparr>)"

text \<open>The health check of \<^verbatim>\<open>main\<close>, lines 519-524: any method.\<close>

definition healthHandler :: "Storage \<Rightarrow> Storage \<times> Response" where
  "healthHandler st =
     (st, respondWithJSON StatusOK
            \<lparr>Success = True, Message = ''Complaint Portal API is running'',
             Data = NoData, Error = ''''\<rparr>)"

section \<open>The server: routes and reachable states\<close>

datatype Call =
  Register "RegisterRequest Request"
  | Login "LoginRequest Request"
  | SubmitComplaint "SubmitComplaintRequest Request"
  | GetAllComplaintsForUser "GetComplaintsRequest Request"
  | GetAllComplaintsForAdmin "GetComplaintsRequest Request"
  | ViewComplaint "ViewComplaintRequest Request"
  | ResolveComplaint "ResolveComplaintRequest Request"
  | Health

fun serve :: "Storage \<Rightarrow> Env \<Rightarrow> Call \<Rightarrow> Storage \<times> Response" where
  "serve st e (Register r) = registerHandler st e r"
| "serve st e (Login r) = loginHandler st e r"
| "serve st e (SubmitComplaint r) = submitComplaintHandler st e r"
| "serve st e (GetAllComplaintsForUser r) = getAllComplaintsForUserHandler st e r"
| "serve st e (GetAllComplaintsForAdmin r) = getAllComplaintsForAdminHandler st e r"
| "serve st e (ViewComplaint r) = viewComplaintHandler st e r"
| "serve st e (ResolveComplaint r) = resolveComplaintHandler st e r"
| "serve st e Health = healthHandler st"

text \<open>
  \<^verbatim>\<open>main\<close> creates the administrator and then serves requests. A state is reachable when
  some sequence of requests, each served under a legal environment, leads to it.
\<close>

inductive reaches :: "Storage \<Rightarrow> Storage \<Rightarrow> bool" where
  reaches_refl: "reaches st st"
| reaches_step: "reaches st st' \<Longrightarrow> legalEnv st' e \<Longrightarrow> reaches st (fst (serve st' e call))"

definition reachable :: "Storage \<Rightarrow> bool" where
  "reachable st = reaches (createDefaultAdmin storage) st"

section \<open>Paths through the handlers\<close>

text \<open>
  For each handler that writes to the store: the conditions under which it succeeds
  (\<open>registerOK\<close>, \<open>submitOK\<close>, \<open>resolveOK\<close>) and the object it then creates
  (\<open>newUserOf\<close>, \<open>newComplaintOf\<close>). They only name paths of the handlers above; the
  lemmas of the section on paths relate them to the handlers.
\<close>

definition newUserOf :: "Storage \<Rightarrow> Env \<Rightarrow> RegisterRequest \<Rightarrow> User" where
  "newUserOf st e req =
     \<lparr>User.ID = userIDGen st + 1,
      User.SecretCode = generateSecretCode (st\<lparr>userIDGen := userIDGen st + 1\<rparr>) (Now e),
      User.Name = TrimSpace (RegisterRequest.Name req),
      User.Email = TrimSpace (RegisterRequest.Email req),
      Complaints = [], IsAdmin = False\<rparr>"

definition registerOK :: "Storage \<Rightarrow> Env \<Rightarrow> RegisterRequest Request \<Rightarrow> RegisterRequest \<Rightarrow> bool" where
  "registerOK st e r req =
     (Method r = MethodPost \<and> Body r = Some req \<and>
      TrimSpace (RegisterRequest.Name req) \<noteq> '''' \<and>
      TrimSpace (RegisterRequest.Email req) \<noteq> '''' \<and>
      findUserByEmail st (userOrder e) (RegisterRequest.Email req) = None)"

definition newComplaintOf :: "Storage \<Rightarrow> Env \<Rightarrow> SubmitComplaintRequest \<Rightarrow> User \<Rightarrow> Complaint" where
  "newComplaintOf st e req user =
     \<lparr>Complaint.ID = compIDGen st + 1,
      Complaint.Title = TrimSpace (SubmitComplaintRequest.Title req),
      Complaint.Summary = TrimSpace (SubmitComplaintRequest.Summary req),
      Complaint.Rating = SubmitComplaintRequest.Rating req,
      UserID = User.ID user, UserName = User.Name user, IsResolved = False,
      CreatedAt = getCurrentTime (Now e), ResolvedAt = ''''\<rparr>"

definition submitOK :: "Storage \<Rightarrow> Env \<Rightarrow> SubmitComplaintRequest Request \<Rightarrow> SubmitComplaintRequest \<Rightarrow> int \<Rightarrow> User \<Rightarrow> bool" where
  "submitOK st e r req p user =
     (Method r = MethodPost \<and> Body r = Some req \<and>
      TrimSpace (SubmitComplaintRequest.SecretCode req) \<noteq> '''' \<and>
      TrimSpace (SubmitComplaintRequest.Title req) \<noteq> '''' \<and>
      TrimSpace (SubmitComplaintRequest.Summary req) \<noteq> '''' \<and>
      1 \<le> SubmitComplaintRequest.Rating req \<and> SubmitComplaintRequest.Rating req \<le> 10 \<and>
      findUserBySecretCode st (userOrder e) (SubmitComplaintRequest.SecretCode req) = Some (p, user))"

definition resolveOK :: "Storage \<Rightarrow> Env \<Rightarrow> ResolveComplaintRequest Request \<Rightarrow> ResolveComplaintRequest \<Rightarrow> int \<Rightarrow> User \<Rightarrow> bool" where
  "resolveOK st e r req p user =
     (Method r = MethodPost \<and> Body r = Some req \<and>
      TrimSpace (ResolveComplaintRequest.SecretCode req) \<noteq> '''' \<and>
      0 < ResolveComplaintRequest.ComplaintID req \<and>
      findUserBySecretCode st (userOrder e) (ResolveComplaintRequest.SecretCode req) = Some (p, user) \<and>
      IsAdmin user)"

section \<open>Runs of the server\<close>

text \<open>
  A run serves a list of requests in turn, each under its own environment, and collects
  the responses. The ids handed out during a run are read off the responses: a 201 whose
  payload is a user comes from \<open>registerHandler\<close>, a 201 whose payload is a complaint
  from \<open>submitComplaintHandler\<close>.
\<close>

fun run :: "Storage \<Rightarrow> (Env \<times> Call) list \<Rightarrow> Storage \<times> Response list" where
  "run st [] = (st, [])"
| "run st ((e, call) # rest) =
     (let (st1, resp) = serve st e call;
          (st2, resps) = run st1 rest
      in (st2, resp # resps))"

fun createdUserID :: "Response \<Rightarrow> int option" where
  "createdUserID (code, body) =
     (case Data body of
        UserData u \<Rightarrow> if code = StatusCreated then Some (User.ID u) else None
      | _ \<Rightarrow> None)"

fun createdComplaintID :: "Response \<Rightarrow> int option" where
  "createdComplaintID (code, body) =
     (case Data body of
        ComplaintData c \<Rightarrow> if code = StatusCreated then Some (Complaint.ID c) else None
      | _ \<Rightarrow> None)"

definition createdUserIDs :: "Response list \<Rightarrow> int list" where
  "createdUserIDs rs = List.map_filter createdUserID rs"

definition createdComplaintIDs :: "Response list \<Rightarrow> int list" where
  "createdComplaintIDs rs = List.map_filter createdComplaintID rs"

section \<open>Decimal digits\<close>


section \<open>Invariants of the store\<close>

text \<open>
  \<open>idsOK\<close>: the keys in use are exactly the ids handed out so far, and every object is
  stored under its own id. \<open>viewsOK\<close>: every copy in a user's \<^verbatim>\<open>Complaints\<close> slice equals
  the complaint stored under its id and belongs to that user, no slice holds an id twice,
  and every stored complaint has a copy in its owner's slice. \<open>resolvedOK\<close>: a complaint is
  resolved exactly when its \<^verbatim>\<open>ResolvedAt\<close> is set. \<open>tokensOK\<close>: a user either is account
  1 with the administrator's fixed code, or has a code of the form \<open>SEC_\<close>, a number,
  \<open>_\<close>, the user's id plus one.
\<close>

definition idsOK :: "Storage \<Rightarrow> bool" where
  "idsOK st \<longleftrightarrow>
     1 \<le> userIDGen st \<and> 0 \<le> compIDGen st \<and>
     dom (users st) = {1..userIDGen st} \<and> dom (complaints st) = {1..compIDGen st} \<and>
     (\<forall>k u. users st k = Some u \<longrightarrow> User.ID u = k) \<and>
     (\<forall>k c. complaints st k = Some c \<longrightarrow> Complaint.ID c = k)"

definition viewsOK :: "Storage \<Rightarrow> bool" where
  "viewsOK st \<longleftrightarrow>
     (\<forall>k u c. users st k = Some u \<longrightarrow> c \<in> set (Complaints u) \<longrightarrow>
        complaints st (Complaint.ID c) = Some c \<and> UserID c = k) \<and>
     (\<forall>k u. users st k = Some u \<longrightarrow> distinct (map Complaint.ID (Complaints u))) \<and>
     (\<forall>k c. complaints st k = Some c \<longrightarrow>
        (\<exists>u. users st (UserID c) = Some u \<and> c \<in> set (Complaints u)))"

definition resolvedOK :: "Storage \<Rightarrow> bool" where
  "resolvedOK st \<longleftrightarrow>
     (\<forall>k c. complaints st k = Some c \<longrightarrow> (IsResolved c \<longleftrightarrow> ResolvedAt c \<noteq> ''''))"

definition tokensOK :: "Storage \<Rightarrow> bool" where
  "tokensOK st \<longleftrightarrow>
     (\<forall>k u. users st k = Some u \<longrightarrow>
        (k = 1 \<and> User.SecretCode u = ''ADMIN_SECRET_123'') \<or>
        (\<exists>t. User.SecretCode u = ''SEC_'' @ formatInt t @ ''_'' @ formatInt (k + 1)))"

definition invariant :: "Storage \<Rightarrow> bool" where
  "invariant st \<longleftrightarrow> idsOK st \<and> viewsOK st \<and> resolvedOK st \<and> tokensOK st"

section \<open>The token generator of the spec\<close>



section \<open>A concrete run\<close>

text \<open>
  Concrete stores and requests: the store after start-up, after Ann registers, after she
  files one and then a second complaint, after the administrator resolves the first,
  after Ben registers and after he files a complaint; and the registrations of Bo and Cy
  with the same e-mail address.
\<close>

definition demoNow :: Time where
  "demoNow = \<lparr>Unix = 5, Year = 2024, Month = 1, Day = 2, Hour = 3, Minute = 4, Second = 5\<rparr>"

definition env :: "int list \<Rightarrow> int list \<Rightarrow> Env" where
  "env us cs = \<lparr>Now = demoNow, userOrder = us, complaintOrder = cs\<rparr>"

definition post :: "'a \<Rightarrow> 'a Request" where
  "post body = \<lparr>Method = MethodPost, Body = Some body\<rparr>"

definition adminUser :: User where
  "adminUser = \<lparr>User.ID = 1, User.SecretCode = ''ADMIN_SECRET_123'',
     User.Name = ''System Administrator'', User.Email = ''admin@complaintportal.com'',
     Complaints = [], IsAdmin = True\<rparr>"

definition stBoot :: Storage where
  "stBoot = \<lparr>users = [1 \<mapsto> adminUser], complaints = Map.empty, userIDGen = 1, compIDGen = 0\<rparr>"

definition annUser :: User where
  "annUser = \<lparr>User.ID = 2, User.SecretCode = ''SEC_5_3'', User.Name = ''Ann'',
     User.Email = ''ann@x.com'', Complaints = [], IsAdmin = False\<rparr>"

definition registerAnn :: "RegisterRequest Request" where
  "registerAnn = post \<lparr>RegisterRequest.Name = ''Ann'', RegisterRequest.Email = ''ann@x.com''\<rparr>"

definition stAnn :: Storage where
  "stAnn = \<lparr>users = [1 \<mapsto> adminUser, 2 \<mapsto> annUser], complaints = Map.empty,
     userIDGen = 2, compIDGen = 0\<rparr>"

definition noise :: Complaint where
  "noise = \<lparr>Complaint.ID = 1, Complaint.Title = ''Noise'', Complaint.Summary = ''Too loud'',
     Complaint.Rating = 5, UserID = 2, UserName = ''Ann'', IsResolved = False,
     CreatedAt = ''2024-01-02 03:04:05'', ResolvedAt = ''''\<rparr>"

definition submitNoise :: "SubmitComplaintRequest Request" where
  "submitNoise = post \<lparr>SubmitComplaintRequest.SecretCode = ''SEC_5_3'',
     SubmitComplaintRequest.Title = ''Noise'', SubmitComplaintRequest.Summary = ''Too loud'',
     SubmitComplaintRequest.Rating = 5\<rparr>"

definition stFiled :: Storage where
  "stFiled = \<lparr>users = [1 \<mapsto> adminUser, 2 \<mapsto> annUser\<lparr>Complaints := [noise]\<rparr>],
     complaints = [1 \<mapsto> noise], userIDGen = 2, compIDGen = 1\<rparr>"

definition noiseResolved :: Complaint where
  "noiseResolved = noise\<lparr>IsResolved := True, ResolvedAt := ''2024-01-02 03:04:05''\<rparr>"

definition resolveNoise :: "ResolveComplaintRequest Request" where
  "resolveNoise = post \<lparr>ResolveComplaintRequest.SecretCode = ''ADMIN_SECRET_123'',
     ResolveComplaintRequest.ComplaintID = 1\<rparr>"

definition stResolved :: Storage where
  "stResolved = \<lparr>users = [1 \<mapsto> adminUser, 2 \<mapsto> annUser\<lparr>Complaints := [noiseResolved]\<rparr>],
     complaints = [1 \<mapsto> noiseResolved], userIDGen = 2, compIDGen = 1\<rparr>"

definition leak :: Complaint where
  "leak = \<lparr>Complaint.ID = 2, Complaint.Title = ''Leak'', Complaint.Summary = ''Pipe drips'',
     Complaint.Rating = 10, UserID = 2, UserName = ''Ann'', IsResolved = False,
     CreatedAt = ''2024-01-02 03:04:05'', ResolvedAt = ''''\<rparr>"

definition submitLeak :: "int \<Rightarrow> SubmitComplaintRequest Request" where
  "submitLeak rating = post \<lparr>SubmitComplaintRequest.SecretCode = ''SEC_5_3'',
     SubmitComplaintRequest.Title = ''Leak'', SubmitComplaintRequest.Summary = ''Pipe drips'',
     SubmitComplaintRequest.Rating = rating\<rparr>"

definition stTwo :: Storage where
  "stTwo = \<lparr>users = [1 \<mapsto> adminUser, 2 \<mapsto> annUser\<lparr>Complaints := [noise, leak]\<rparr>],
     complaints = [1 \<mapsto> noise, 2 \<mapsto> leak], userIDGen = 2, compIDGen = 2\<rparr>"

definition listMine :: "GetComplaintsRequest Request" where
  "listMine = post \<lparr>GetComplaintsRequest.SecretCode = ''SEC_5_3''\<rparr>"

definition listAll :: "GetComplaintsRequest Request" where
  "listAll = post \<lparr>GetComplaintsRequest.SecretCode = ''ADMIN_SECRET_123''\<rparr>"

definition viewAs :: "string \<Rightarrow> int \<Rightarrow> ViewComplaintRequest Request" where
  "viewAs code cid = post \<lparr>ViewComplaintRequest.SecretCode = code,
     ViewComplaintRequest.ComplaintID = cid\<rparr>"

definition boUser :: User where
  "boUser = \<lparr>User.ID = 2, User.SecretCode = ''SEC_5_3'', User.Name = ''Bo'',
     User.Email = ''dup@x.com'', Complaints = [], IsAdmin = False\<rparr>"

definition cyUser :: User where
  "cyUser = \<lparr>User.ID = 3, User.SecretCode = ''SEC_5_4'', User.Name = ''Cy'',
     User.Email = ''dup@x.com'', Complaints = [], IsAdmin = False\<rparr>"

definition register :: "string \<Rightarrow> string \<Rightarrow> RegisterRequest Request" where
  "register name email = post \<lparr>RegisterRequest.Name = name, RegisterRequest.Email = email\<rparr>"

definition stBo :: Storage where
  "stBo = \<lparr>users = [1 \<mapsto> adminUser, 2 \<mapsto> boUser], complaints = Map.empty,
     userIDGen = 2, compIDGen = 0\<rparr>"

definition stCy :: Storage where
  "stCy = \<lparr>users = [1 \<mapsto> adminUser, 2 \<mapsto> boUser, 3 \<mapsto> cyUser], complaints = Map.empty,
     userIDGen = 3, compIDGen = 0\<rparr>"

definition benUser :: User where
  "benUser = \<lparr>User.ID = 3, User.SecretCode = ''SEC_5_4'', User.Name = ''Ben'',
     User.Email = ''ben@x.com'', Complaints = [], IsAdmin = False\<rparr>"

definition stBen :: Storage where
  "stBen = \<lparr>users = [1 \<mapsto> adminUser, 2 \<mapsto> annUser\<lparr>Complaints := [noise, leak]\<rparr>,
       3 \<mapsto> benUser],
     complaints = [1 \<mapsto> noise, 2 \<mapsto> leak], userIDGen = 3, compIDGen = 2\<rparr>"

definition demoRun :: "(Env \<times> Call) list" where
  "demoRun = [(env [1] [], Register registerAnn), (env [2, 1] [], SubmitComplaint submitNoise)]"

definition smell :: Complaint where
  "smell = \<lparr>Complaint.ID = 3, Complaint.Title = ''Smell'', Complaint.Summary = ''Bins overflow'',
     Complaint.Rating = 1, UserID = 3, UserName = ''Ben'', IsResolved = False,
     CreatedAt = ''2024-01-02 03:04:05'', ResolvedAt = ''''\<rparr>"

definition submitSmell :: "SubmitComplaintRequest Request" where
  "submitSmell = post \<lparr>SubmitComplaintRequest.SecretCode = ''SEC_5_4'',
     SubmitComplaintRequest.Title = ''Smell'', SubmitComplaintRequest.Summary = ''Bins overflow'',
     SubmitComplaintRequest.Rating = 1\<rparr>"

definition stSmell :: Storage where
  "stSmell = \<lparr>users = [1 \<mapsto> adminUser, 2 \<mapsto> annUser\<lparr>Complaints := [noise, leak]\<rparr>,
       3 \<mapsto> benUser\<lparr>Complaints := [smell]\<rparr>],
     complaints = [1 \<mapsto> noise, 2 \<mapsto> leak, 3 \<mapsto> smell], userIDGen = 3, compIDGen = 3\<rparr>"

definition listBen :: "GetComplaintsRequest Request" where
  "listBen = post \<lparr>GetComplaintsRequest.SecretCode = ''SEC_5_4''\<rparr>"

section \<open>What each handler does, path by path\<close>

text \<open>
  On its success path a writing handler returns the store and response given by the
  \<open>_created\<close> and \<open>_resolved\<close> lemmas; on every other path it returns the store
  unchanged and a status other than the one of success.
\<close>

lemma rangeMap_set: "(k, v) \<in> set (rangeMap m ks) \<longleftrightarrow> k \<in> set ks \<and> m k = Some v"
  by (auto simp: rangeMap_def map_filter_def image_iff)

lemma findUserBySecretCode_Some:
  assumes "findUserBySecretCode st ks code = Some (p, user)"
  shows "users st p = Some user \<and> User.SecretCode user = code \<and> p \<in> set ks"
proof -
  from assms obtain i where i: "i < length (rangeMap (users st) ks)"
      "rangeMap (users st) ks ! i = (p, user)" "User.SecretCode user = code"
    by (auto simp: findUserBySecretCode_def find_Some_iff)
  then have "(p, user) \<in> set (rangeMap (users st) ks)"
    by (metis nth_mem)
  with i show ?thesis by (simp add: rangeMap_set)
qed

lemma registerHandler_created:
  assumes "registerOK st e r req"
  shows "registerHandler st e r =
         (st\<lparr>userIDGen := userIDGen st + 1,
             users := (users st)(userIDGen st + 1 \<mapsto> newUserOf st e req)\<rparr>,
          respondWithJSON StatusCreated
            \<lparr>Success = True, Message = ''User registered successfully'',
             Data = UserData (newUserOf st e req), Error = ''''\<rparr>)"
  using assms
  by (simp add: registerOK_def registerHandler_def newUserOf_def Let_def)

lemma registerHandler_cases:
  "(fst (registerHandler st e r) = st \<and>
    fst (snd (registerHandler st e r)) \<noteq> StatusCreated) \<or>
   (\<exists>req. registerOK st e r req)"
  by (cases "Body r")
     (auto simp: registerOK_def registerHandler_def respondWithError_def respondWithJSON_def
           split: if_splits option.splits)

lemma submitComplaintHandler_created:
  assumes "submitOK st e r req p user"
  shows "submitComplaintHandler st e r =
         (st\<lparr>compIDGen := compIDGen st + 1,
             complaints := (complaints st)(compIDGen st + 1 \<mapsto> newComplaintOf st e req user),
             users := (users st)(p \<mapsto> user\<lparr>Complaints := Complaints user @ [newComplaintOf st e req user]\<rparr>)\<rparr>,
          respondWithJSON StatusCreated
            \<lparr>Success = True, Message = ''Complaint submitted successfully'',
             Data = ComplaintData (newComplaintOf st e req user), Error = ''''\<rparr>)"
  using assms
  by (simp add: submitOK_def submitComplaintHandler_def newComplaintOf_def Let_def)

lemma submitComplaintHandler_cases:
  "(fst (submitComplaintHandler st e r) = st \<and>
    fst (snd (submitComplaintHandler st e r)) \<noteq> StatusCreated) \<or>
   (\<exists>req p user. submitOK st e r req p user)"
  by (cases "Body r")
     (auto simp: submitOK_def submitComplaintHandler_def respondWithError_def respondWithJSON_def
           split: if_splits option.splits)

lemma resolveComplaintHandler_resolved:
  assumes "resolveOK st e r req p user"
    "complaints st (ResolveComplaintRequest.ComplaintID req) = Some c" "\<not> IsResolved c"
  shows "resolveComplaintHandler st e r =
     (case users st (UserID c) of
        None \<Rightarrow> st\<lparr>complaints := (complaints st)(ResolveComplaintRequest.ComplaintID req \<mapsto>
                     c\<lparr>IsResolved := True, ResolvedAt := getCurrentTime (Now e)\<rparr>)\<rparr>
      | Some owner \<Rightarrow>
          st\<lparr>complaints := (complaints st)(ResolveComplaintRequest.ComplaintID req \<mapsto>
                     c\<lparr>IsResolved := True, ResolvedAt := getCurrentTime (Now e)\<rparr>),
             users := (users st)(UserID c \<mapsto>
                 owner\<lparr>Complaints := resolveCopy (Complaint.ID c) (getCurrentTime (Now e)) (Complaints owner)\<rparr>)\<rparr>,
      respondWithJSON StatusOK
           \<lparr>Success = True, Message = ''Complaint resolved successfully'',
            Data = ComplaintData (c\<lparr>IsResolved := True, ResolvedAt := getCurrentTime (Now e)\<rparr>),
            Error = ''''\<rparr>)"
  using assms
  by (simp add: resolveOK_def resolveComplaintHandler_def Let_def split: option.splits)

lemma resolveComplaintHandler_cases:
  "(fst (resolveComplaintHandler st e r) = st \<and>
    fst (snd (resolveComplaintHandler st e r)) \<noteq> StatusOK) \<or>
   (\<exists>req p user c. resolveOK st e r req p user \<and>
      complaints st (ResolveComplaintRequest.ComplaintID req) = Some c \<and> \<not> IsResolved c)"
  by (cases "Body r")
     (auto simp: resolveOK_def resolveComplaintHandler_def respondWithError_def respondWithJSON_def
           split: if_splits option.splits)

section \<open>Decimal strings and secret codes\<close>






lemma showNat_nonempty: "showNat n \<noteq> []"
  by (subst showNat.simps) simp







lemma appendInt_nonempty: "appendInt x w \<noteq> []"
  by (simp add: appendInt_def showNat_nonempty)

lemma getCurrentTime_nonempty: "getCurrentTime t \<noteq> []"
  by (simp add: getCurrentTime_def appendInt_nonempty)


section \<open>The invariants hold in every reachable store\<close>

text \<open>
  Each invariant holds after start-up and is preserved by every handler, whatever the
  request and the environment.
\<close>

lemma loginHandler_state: "fst (loginHandler st e r) = st"
  by (cases "Body r") (auto simp: loginHandler_def split: option.splits)

lemma getAllComplaintsForUserHandler_state: "fst (getAllComplaintsForUserHandler st e r) = st"
  by (cases "Body r") (auto simp: getAllComplaintsForUserHandler_def split: option.splits)

lemma getAllComplaintsForAdminHandler_state: "fst (getAllComplaintsForAdminHandler st e r) = st"
  by (cases "Body r") (auto simp: getAllComplaintsForAdminHandler_def split: option.splits)

lemma viewComplaintHandler_state: "fst (viewComplaintHandler st e r) = st"
  by (cases "Body r") (auto simp: viewComplaintHandler_def split: option.splits)

lemma healthHandler_state: "fst (healthHandler st) = st"
  by (simp add: healthHandler_def)

lemma resolveCopy_map:
  "distinct (map Complaint.ID cs) \<Longrightarrow>
   resolveCopy cid at cs =
     map (\<lambda>d. if Complaint.ID d = cid then d\<lparr>IsResolved := True, ResolvedAt := at\<rparr> else d) cs"
proof (induction cs)
  case Nil
  then show ?case by simp
next
  case (Cons c cs)
  show ?case
  proof (cases "Complaint.ID c = cid")
    case True
    from Cons.prems have "Complaint.ID c \<notin> Complaint.ID ` set cs" by simp
    with True have "\<forall>d\<in>set cs. Complaint.ID d \<noteq> cid" by blast
    then have "map (\<lambda>d. if Complaint.ID d = cid then d\<lparr>IsResolved := True, ResolvedAt := at\<rparr> else d) cs = cs"
      by (induction cs) auto
    with True show ?thesis by simp
  next
    case False
    with Cons show ?thesis by simp
  qed
qed

lemma invariant_boot: "invariant (createDefaultAdmin storage)"
  by (auto simp: invariant_def idsOK_def viewsOK_def resolvedOK_def tokensOK_def
      createDefaultAdmin_def storage_def Let_def split: if_splits)

lemma submitOK_user: "submitOK st e r req p user \<Longrightarrow> users st p = Some user"
  by (auto simp: submitOK_def dest: findUserBySecretCode_Some)

lemma idsOK_register:
  assumes "idsOK st" "registerOK st e r req"
  shows "idsOK (fst (registerHandler st e r))"
proof -
  from assms(1) have "insert (userIDGen st + 1) {1..userIDGen st} = {1..userIDGen st + 1}"
    by (auto simp: idsOK_def)
  with assms(1) show ?thesis
    by (auto simp: registerHandler_created[OF assms(2)] idsOK_def newUserOf_def)
qed

lemma idsOK_submit:
  assumes "idsOK st" "submitOK st e r req p user"
  shows "idsOK (fst (submitComplaintHandler st e r))"
proof -
  from assms(2) have u: "users st p = Some user"
    by (rule submitOK_user)
  from assms(1) have "insert (compIDGen st + 1) {1..compIDGen st} = {1..compIDGen st + 1}"
    by (auto simp: idsOK_def)
  moreover from u assms(1) have "insert p (dom (users st)) = dom (users st)" by auto
  moreover from u assms(1) have "User.ID user = p" by (simp add: idsOK_def)
  ultimately show ?thesis using assms(1)
    by (auto simp: submitComplaintHandler_created[OF assms(2)] idsOK_def newComplaintOf_def)
qed

lemma idsOK_resolve:
  assumes "idsOK st" "resolveOK st e r req p user"
    "complaints st (ResolveComplaintRequest.ComplaintID req) = Some c" "\<not> IsResolved c"
  shows "idsOK (fst (resolveComplaintHandler st e r))"
proof (cases "users st (UserID c)")
  case None
  from assms(3) have "insert (ResolveComplaintRequest.ComplaintID req) (dom (complaints st)) = dom (complaints st)"
    by auto
  with None assms(1,3) show ?thesis
    by (auto simp: resolveComplaintHandler_resolved[OF assms(2-4)] idsOK_def)
next
  case (Some owner)
  from assms(3) have "insert (ResolveComplaintRequest.ComplaintID req) (dom (complaints st)) = dom (complaints st)"
    by auto
  moreover from Some have "insert (UserID c) (dom (users st)) = dom (users st)" by auto
  ultimately show ?thesis using Some assms(1,3)
    by (auto simp: resolveComplaintHandler_resolved[OF assms(2-4)] idsOK_def)
qed

lemma resolvedOK_submit:
  assumes "resolvedOK st" "submitOK st e r req p user"
  shows "resolvedOK (fst (submitComplaintHandler st e r))"
  using assms(1)
  by (auto simp: submitComplaintHandler_created[OF assms(2)] resolvedOK_def newComplaintOf_def)

lemma resolvedOK_resolve:
  assumes "resolvedOK st" "resolveOK st e r req p user"
    "complaints st (ResolveComplaintRequest.ComplaintID req) = Some c" "\<not> IsResolved c"
  shows "resolvedOK (fst (resolveComplaintHandler st e r))"
  using assms(1)
  by (cases "users st (UserID c)")
     (auto simp: resolveComplaintHandler_resolved[OF assms(2-4)] resolvedOK_def getCurrentTime_nonempty)

lemma resolvedOK_register:
  assumes "resolvedOK st" "registerOK st e r req"
  shows "resolvedOK (fst (registerHandler st e r))"
  using assms(1)
  by (auto simp: registerHandler_created[OF assms(2)] resolvedOK_def)

lemma tokensOK_register:
  assumes "tokensOK st" "registerOK st e r req"
  shows "tokensOK (fst (registerHandler st e r))"
  using assms(1)
  by (auto simp: registerHandler_created[OF assms(2)] tokensOK_def newUserOf_def generateSecretCode_def)

lemma tokensOK_submit:
  assumes "tokensOK st" "submitOK st e r req p user"
  shows "tokensOK (fst (submitComplaintHandler st e r))"
  using assms(1) submitOK_user[OF assms(2)]
  by (auto simp: submitComplaintHandler_created[OF assms(2)] tokensOK_def)

lemma tokensOK_resolve:
  assumes "tokensOK st" "resolveOK st e r req p user"
    "complaints st (ResolveComplaintRequest.ComplaintID req) = Some c" "\<not> IsResolved c"
  shows "tokensOK (fst (resolveComplaintHandler st e r))"
  using assms(1)
  by (cases "users st (UserID c)")
     (auto simp: resolveComplaintHandler_resolved[OF assms(2-4)] tokensOK_def)

lemma idsOK_fresh:
  assumes "idsOK st"
  shows "users st (userIDGen st + 1) = None" and "complaints st (compIDGen st + 1) = None"
proof -
  from assms have "userIDGen st + 1 \<notin> dom (users st)" by (simp add: idsOK_def)
  then show "users st (userIDGen st + 1) = None" by (simp add: domIff)
  from assms have "compIDGen st + 1 \<notin> dom (complaints st)" by (simp add: idsOK_def)
  then show "complaints st (compIDGen st + 1) = None" by (simp add: domIff)
qed

lemma viewsOK_copy:
  "viewsOK st \<Longrightarrow> users st k = Some u \<Longrightarrow> c \<in> set (Complaints u) \<Longrightarrow>
     complaints st (Complaint.ID c) = Some c \<and> UserID c = k"
  unfolding viewsOK_def by blast

lemma viewsOK_distinct:
  "viewsOK st \<Longrightarrow> users st k = Some u \<Longrightarrow> distinct (map Complaint.ID (Complaints u))"
  unfolding viewsOK_def by blast

lemma viewsOK_owner:
  "viewsOK st \<Longrightarrow> complaints st k = Some c \<Longrightarrow>
     \<exists>u. users st (UserID c) = Some u \<and> c \<in> set (Complaints u)"
  unfolding viewsOK_def by blast

lemma viewsOK_register:
  assumes "viewsOK st" "idsOK st" "registerOK st e r req"
  shows "viewsOK (fst (registerHandler st e r))"
proof -
  from assms(2) have fresh: "users st (userIDGen st + 1) = None"
    by (rule idsOK_fresh)
  have new: "users (fst (registerHandler st e r)) k =
      (if k = userIDGen st + 1 then Some (newUserOf st e req) else users st k)" for k
    by (simp add: registerHandler_created[OF assms(3)])
  have comp: "complaints (fst (registerHandler st e r)) = complaints st"
    by (simp add: registerHandler_created[OF assms(3)])
  have empty: "Complaints (newUserOf st e req) = []" by (simp add: newUserOf_def)
  show ?thesis
    unfolding viewsOK_def
  proof (intro conjI allI impI)
    fix k u c
    assume "users (fst (registerHandler st e r)) k = Some u" "c \<in> set (Complaints u)"
    with assms(1) empty have both:
      "complaints (fst (registerHandler st e r)) (Complaint.ID c) = Some c \<and> UserID c = k"
      by (auto simp: new comp viewsOK_def split: if_splits)
    from both show "complaints (fst (registerHandler st e r)) (Complaint.ID c) = Some c" by simp
    from both show "UserID c = k" by simp
  next
    fix k u
    assume "users (fst (registerHandler st e r)) k = Some u"
    with assms(1) empty show "distinct (map Complaint.ID (Complaints u))"
      by (auto simp: new viewsOK_def split: if_splits)
  next
    fix k c
    assume "complaints (fst (registerHandler st e r)) k = Some c"
    then have "complaints st k = Some c" by (simp add: comp)
    from viewsOK_owner[OF assms(1) this]
    obtain u where u: "users st (UserID c) = Some u" "c \<in> set (Complaints u)"
      by blast
    with fresh have "UserID c \<noteq> userIDGen st + 1" by auto
    with u show "\<exists>u. users (fst (registerHandler st e r)) (UserID c) = Some u \<and> c \<in> set (Complaints u)"
      by (simp add: new)
  qed
qed

lemma viewsOK_submit:
  assumes "viewsOK st" "idsOK st" "submitOK st e r req p user"
  shows "viewsOK (fst (submitComplaintHandler st e r))"
proof -
  define c0 where "c0 = newComplaintOf st e req user"
  define st' where "st' = fst (submitComplaintHandler st e r)"
  have u: "users st p = Some user" using assms(3) by (rule submitOK_user)
  with assms(2) have uid: "User.ID user = p" by (simp add: idsOK_def)
  from assms(2) have fresh: "complaints st (compIDGen st + 1) = None"
    by (rule idsOK_fresh)
  have c0: "Complaint.ID c0 = compIDGen st + 1" "UserID c0 = p"
    by (simp_all add: c0_def newComplaintOf_def uid)
  have users': "users st' k =
      (if k = p then Some (user\<lparr>Complaints := Complaints user @ [c0]\<rparr>) else users st k)" for k
    by (simp add: st'_def c0_def submitComplaintHandler_created[OF assms(3)])
  have comp': "complaints st' k = (if k = compIDGen st + 1 then Some c0 else complaints st k)" for k
    by (simp add: st'_def c0_def submitComplaintHandler_created[OF assms(3)])
  have old: "complaints st (Complaint.ID c) = Some c \<and> UserID c = k"
    if "users st k = Some v" "c \<in> set (Complaints v)" for k v c
    using viewsOK_copy[OF assms(1) that] .
  have old_id: "Complaint.ID c \<noteq> compIDGen st + 1"
    if "users st k = Some v" "c \<in> set (Complaints v)" for k v c
    using old[OF that] fresh by auto
  have "viewsOK st'"
    unfolding viewsOK_def
  proof (intro conjI allI impI)
    fix k v c
    assume a: "users st' k = Some v" "c \<in> set (Complaints v)"
    have both: "complaints st' (Complaint.ID c) = Some c \<and> UserID c = k"
    proof (cases "k = p")
      case True
      with a have "c \<in> set (Complaints user) \<or> c = c0" by (auto simp: users')
      then show ?thesis
      proof
        assume "c \<in> set (Complaints user)"
        with u old old_id True show ?thesis by (simp add: comp')
      next
        assume "c = c0"
        with c0 True show ?thesis by (simp add: comp')
      qed
    next
      case False
      with a have "users st k = Some v" by (simp add: users')
      with a(2) old old_id show ?thesis by (simp add: comp')
    qed
    from both show "complaints st' (Complaint.ID c) = Some c" by simp
    from both show "UserID c = k" by simp
  next
    fix k v
    assume a: "users st' k = Some v"
    show "distinct (map Complaint.ID (Complaints v))"
    proof (cases "k = p")
      case True
      with a have v: "Complaints v = Complaints user @ [c0]" by (auto simp: users')
      from assms(1) u have "distinct (map Complaint.ID (Complaints user))" by (rule viewsOK_distinct)
      moreover have "\<forall>c\<in>set (Complaints user). Complaint.ID c \<noteq> compIDGen st + 1"
        using old_id[OF u] by blast
      then have "Complaint.ID c0 \<notin> Complaint.ID ` set (Complaints user)"
        using c0 by auto
      ultimately show ?thesis by (simp add: v)
    next
      case False
      with a have "users st k = Some v" by (simp add: users')
      with assms(1) show ?thesis by (rule viewsOK_distinct)
    qed
  next
    fix k c
    assume a: "complaints st' k = Some c"
    show "\<exists>v. users st' (UserID c) = Some v \<and> c \<in> set (Complaints v)"
    proof (cases "k = compIDGen st + 1")
      case True
      with a have "c = c0" by (simp add: comp')
      with c0 show ?thesis by (simp add: users')
    next
      case False
      with a have "complaints st k = Some c" by (simp add: comp')
      from viewsOK_owner[OF assms(1) this]
      obtain v where v: "users st (UserID c) = Some v" "c \<in> set (Complaints v)"
        by blast
      show ?thesis
      proof (cases "UserID c = p")
        case True
        with v u show ?thesis by (simp add: users')
      next
        case False
        with v show ?thesis by (simp add: users')
      qed
    qed
  qed
  then show ?thesis by (simp add: st'_def)
qed

lemma viewsOK_resolve:
  assumes "viewsOK st" "idsOK st" "resolveOK st e r req p user"
    "complaints st (ResolveComplaintRequest.ComplaintID req) = Some c" "\<not> IsResolved c"
  shows "viewsOK (fst (resolveComplaintHandler st e r))"
proof -
  define cid where "cid = ResolveComplaintRequest.ComplaintID req"
  define at where "at = getCurrentTime (Now e)"
  define c' where "c' = c\<lparr>IsResolved := True, ResolvedAt := at\<rparr>"
  define f :: "Complaint \<Rightarrow> Complaint" where "f = (\<lambda>d. if Complaint.ID d = cid then d\<lparr>IsResolved := True, ResolvedAt := at\<rparr> else d)"
  define st' where "st' = fst (resolveComplaintHandler st e r)"
  have c: "complaints st cid = Some c" using assms(4) by (simp add: cid_def)
  with assms(2) have cid: "Complaint.ID c = cid" by (simp add: idsOK_def)
  from viewsOK_owner[OF assms(1) c]
  obtain owner where owner: "users st (UserID c) = Some owner" "c \<in> set (Complaints owner)"
    by blast
  have dist: "distinct (map Complaint.ID (Complaints owner))"
    using assms(1) owner(1) by (rule viewsOK_distinct)
  have copy: "resolveCopy cid at (Complaints owner) = map f (Complaints owner)"
    unfolding f_def using dist by (rule resolveCopy_map)
  have f_id: "Complaint.ID (f d) = Complaint.ID d" for d by (simp add: f_def)
  have f_owner: "UserID (f d) = UserID d" for d by (simp add: f_def)
  have f_c: "f c = c'" by (simp add: f_def c'_def cid)
  have f_other: "f d = d" if "Complaint.ID d \<noteq> cid" for d using that by (simp add: f_def)
  have same: "d = c" if "users st k = Some v" "d \<in> set (Complaints v)" "Complaint.ID d = cid" for k v d
    using viewsOK_copy[OF assms(1) that(1,2)] that(3) c by simp
  have users': "users st' k =
      (if k = UserID c then Some (owner\<lparr>Complaints := map f (Complaints owner)\<rparr>) else users st k)" for k
    using owner(1) cid copy
    by (simp add: st'_def resolveComplaintHandler_resolved[OF assms(3-5)] at_def)
  have comp': "complaints st' k = (if k = cid then Some c' else complaints st k)" for k
    using owner(1)
    by (simp add: st'_def resolveComplaintHandler_resolved[OF assms(3-5)] at_def cid_def c'_def)
  have c'_id: "Complaint.ID c' = cid" "UserID c' = UserID c" by (simp_all add: c'_def cid)
  have "viewsOK st'"
    unfolding viewsOK_def
  proof (intro conjI allI impI)
    fix k v d
    assume a: "users st' k = Some v" "d \<in> set (Complaints v)"
    have both: "complaints st' (Complaint.ID d) = Some d \<and> UserID d = k"
    proof (cases "k = UserID c")
      case True
      with a obtain d0 where d0: "d0 \<in> set (Complaints owner)" "d = f d0" by (auto simp: users')
      show ?thesis
      proof (cases "Complaint.ID d0 = cid")
        case id: True
        with same[OF owner(1) d0(1)] have "d0 = c" by simp
        with d0 f_c c'_id True show ?thesis by (simp add: comp')
      next
        case False
        with d0 f_other have "d = d0" by simp
        with d0(1) viewsOK_copy[OF assms(1) owner(1)] False True show ?thesis
          by (simp add: comp')
      qed
    next
      case False
      with a have v: "users st k = Some v" by (simp add: users')
      from viewsOK_copy[OF assms(1) v a(2)] have old: "complaints st (Complaint.ID d) = Some d" "UserID d = k"
        by simp_all
      have "Complaint.ID d \<noteq> cid"
      proof
        assume "Complaint.ID d = cid"
        with same[OF v a(2)] have "d = c" by simp
        with old(2) False show False by simp
      qed
      with old show ?thesis by (simp add: comp')
    qed
    from both show "complaints st' (Complaint.ID d) = Some d" by simp
    from both show "UserID d = k" by simp
  next
    fix k v
    assume a: "users st' k = Some v"
    show "distinct (map Complaint.ID (Complaints v))"
    proof (cases "k = UserID c")
      case True
      with a have v: "Complaints v = map f (Complaints owner)" by (auto simp: users')
      have "map Complaint.ID (map f (Complaints owner)) = map Complaint.ID (Complaints owner)"
        by (simp add: f_id)
      with dist have "distinct (map Complaint.ID (map f (Complaints owner)))" by (simp only:)
      then show ?thesis by (simp only: v)
    next
      case False
      with a have "users st k = Some v" by (simp add: users')
      with assms(1) show ?thesis by (rule viewsOK_distinct)
    qed
  next
    fix k d
    assume a: "complaints st' k = Some d"
    show "\<exists>v. users st' (UserID d) = Some v \<and> d \<in> set (Complaints v)"
    proof (cases "k = cid")
      case True
      with a have "d = c'" by (simp add: comp')
      moreover have "c' \<in> set (map f (Complaints owner))"
        using owner(2) f_c by (metis image_eqI set_map)
      ultimately show ?thesis using c'_id by (simp add: users')
    next
      case False
      with a have d: "complaints st k = Some d" by (simp add: comp')
      with assms(2) have did: "Complaint.ID d = k" by (simp add: idsOK_def)
      from viewsOK_owner[OF assms(1) d]
      obtain v where v: "users st (UserID d) = Some v" "d \<in> set (Complaints v)" by blast
      show ?thesis
      proof (cases "UserID d = UserID c")
        case True
        with v owner(1) have "d \<in> set (Complaints owner)" by simp
        moreover from did False have "f d = d" by (simp add: f_other)
        ultimately have "d \<in> set (map f (Complaints owner))" by (metis image_eqI set_map)
        with True show ?thesis by (simp add: users')
      next
        case False
        with v show ?thesis by (simp add: users')
      qed
    qed
  qed
  then show ?thesis by (simp add: st'_def)
qed

lemma invariant_registerHandler:
  assumes "invariant st"
  shows "invariant (fst (registerHandler st e r))"
  using registerHandler_cases[of st e r] assms
  by (auto simp: invariant_def idsOK_register viewsOK_register resolvedOK_register tokensOK_register)

lemma invariant_submitComplaintHandler:
  assumes "invariant st"
  shows "invariant (fst (submitComplaintHandler st e r))"
  using submitComplaintHandler_cases[of st e r] assms
  by (auto simp: invariant_def idsOK_submit viewsOK_submit resolvedOK_submit tokensOK_submit)

lemma invariant_resolveComplaintHandler:
  assumes "invariant st"
  shows "invariant (fst (resolveComplaintHandler st e r))"
  using resolveComplaintHandler_cases[of st e r] assms
  by (auto simp: invariant_def idsOK_resolve viewsOK_resolve resolvedOK_resolve tokensOK_resolve)

lemma invariant_serve: "invariant st \<Longrightarrow> invariant (fst (serve st e call))"
  by (cases call)
     (simp_all add: invariant_registerHandler invariant_submitComplaintHandler
        invariant_resolveComplaintHandler loginHandler_state
        getAllComplaintsForUserHandler_state getAllComplaintsForAdminHandler_state
        viewComplaintHandler_state healthHandler_state)

lemma invariant_reaches: "reaches st st' \<Longrightarrow> invariant st \<Longrightarrow> invariant st'"
  by (induction rule: reaches.induct) (simp_all add: invariant_serve)

lemma invariant_reachable: "reachable st \<Longrightarrow> invariant st"
  unfolding reachable_def using invariant_boot by (rule invariant_reaches[rotated])

section \<open>Properties of the store operations\<close>

lemma rangeMap_values:
  "map snd (rangeMap m ks) = map (\<lambda>k. the (m k)) (filter (\<lambda>k. m k \<noteq> None) ks)"
  by (induction ks) (auto simp: rangeMap_def map_filter_def)

lemma rangeOrder_filter:
  assumes "rangeOrder m ks"
  shows "filter (\<lambda>k. m k \<noteq> None) ks = ks"
  using assms by (auto simp: rangeOrder_def filter_id_conv)

lemma rangeOrder_mset:
  assumes "rangeOrder m ks"
  shows "mset ks = mset_set (dom m)"
  using assms by (metis rangeOrder_def mset_set_set)

lemma allComplaints_legal:
  assumes "rangeOrder (complaints st) ks"
  shows "allComplaints st ks = map (\<lambda>k. the (complaints st k)) ks"
proof -
  have "allComplaints st ks =
      map (\<lambda>k. the (complaints st k)) (filter (\<lambda>k. complaints st k \<noteq> None) ks)"
    unfolding allComplaints_def by (rule rangeMap_values)
  then show ?thesis by (simp only: rangeOrder_filter[OF assms])
qed

lemma allComplaints_mset:
  assumes "rangeOrder (complaints st) ks"
  shows "mset (allComplaints st ks) =
           image_mset (\<lambda>k. the (complaints st k)) (mset_set (dom (complaints st)))"
  by (simp add: allComplaints_legal[OF assms] rangeOrder_mset[OF assms, symmetric])

lemma userComplaints_filter:
  "userComplaints st ks uid = filter (\<lambda>c. UserID c = uid) (allComplaints st ks)"
  by (simp add: userComplaints_def allComplaints_def filter_map comp_def case_prod_unfold)

lemma userComplaints_mset:
  assumes "rangeOrder (complaints st) ks"
  shows "mset (userComplaints st ks uid) =
           filter_mset (\<lambda>c. UserID c = uid)
             (image_mset (\<lambda>k. the (complaints st k)) (mset_set (dom (complaints st))))"
  by (simp add: userComplaints_filter allComplaints_mset[OF assms])

lemma allComplaints_set:
  assumes "rangeOrder (complaints st) ks"
  shows "set (allComplaints st ks) = ran (complaints st)"
proof -
  from assms have "set ks = dom (complaints st)" by (simp add: rangeOrder_def)
  then have "set (allComplaints st ks) = (\<lambda>k. the (complaints st k)) ` dom (complaints st)"
    by (simp add: allComplaints_legal[OF assms])
  also have "\<dots> = ran (complaints st)"
    by (force simp: ran_def dom_def image_iff)
  finally show ?thesis .
qed

lemma getAllComplaintsForUserHandler_listing:
  assumes "Method r = MethodPost" and "Body r = Some req"
    and "TrimSpace (GetComplaintsRequest.SecretCode req) \<noteq> ''''"
    and "findUserBySecretCode st (userOrder e) (GetComplaintsRequest.SecretCode req) = Some (p, user)"
  shows "getAllComplaintsForUserHandler st e r =
           (st, respondWithJSON StatusOK
                  \<lparr>Success = True, Message = ''User complaints retrieved successfully'',
                   Data = ComplaintsData (userComplaints st (complaintOrder e) (User.ID user)),
                   Error = ''''\<rparr>)"
  using assms by (simp add: getAllComplaintsForUserHandler_def)

text \<open>
  Claim C9 (the listing for a user is taken from the stored complaints, not from the
  user's own list). For every store and any legal orders of visit: the complaints listed
  for a user are, as a multiset, the values of the map \<^verbatim>\<open>storage.complaints\<close>, each key
  once, whose \<^verbatim>\<open>UserID\<close> is that user's id; the full listing is the multiset of all values
  of that map; so the listing for a user is the full listing filtered by \<^verbatim>\<open>UserID\<close>. As a
  set it is exactly the stored complaints of that owner. It does not change when the
  \<^verbatim>\<open>users\<close> map, and with it every user's own list, is replaced. A request to
  \<^verbatim>\<open>getAllComplaintsForUserHandler\<close> that passes validation and whose code is found is
  answered with that listing for the id of the user found.
\<close>

theorem C9_user_view_from_authoritative:
  assumes "rangeOrder (complaints st) ks" and "rangeOrder (complaints st) ks'"
  shows "mset (userComplaints st ks uid) =
           filter_mset (\<lambda>c. UserID c = uid)
             (image_mset (\<lambda>k. the (complaints st k)) (mset_set (dom (complaints st)))) \<and>
         mset (allComplaints st ks') =
           image_mset (\<lambda>k. the (complaints st k)) (mset_set (dom (complaints st))) \<and>
         mset (userComplaints st ks uid) =
           filter_mset (\<lambda>c. UserID c = uid) (mset (allComplaints st ks')) \<and>
         set (userComplaints st ks uid) = {c \<in> ran (complaints st). UserID c = uid} \<and>
         userComplaints (st\<lparr>users := us\<rparr>) ks uid = userComplaints st ks uid \<and>
         (Method r = MethodPost \<and> Body r = Some req \<and>
          TrimSpace (GetComplaintsRequest.SecretCode req) \<noteq> '''' \<and>
          findUserBySecretCode st (userOrder e) (GetComplaintsRequest.SecretCode req) =
            Some (p, user) \<and>
          complaintOrder e = ks \<longrightarrow>
            Data (snd (snd (getAllComplaintsForUserHandler st e r))) =
              ComplaintsData (userComplaints st ks (User.ID user)) \<and>
            mset (userComplaints st ks (User.ID user)) =
              filter_mset (\<lambda>c. UserID c = User.ID user)
                (image_mset (\<lambda>k. the (complaints st k)) (mset_set (dom (complaints st)))))"
proof (intro conjI impI)
  show "mset (userComplaints st ks uid) =
           filter_mset (\<lambda>c. UserID c = uid)
             (image_mset (\<lambda>k. the (complaints st k)) (mset_set (dom (complaints st))))"
    by (rule userComplaints_mset[OF assms(1)])
  show "mset (allComplaints st ks') =
           image_mset (\<lambda>k. the (complaints st k)) (mset_set (dom (complaints st)))"
    by (rule allComplaints_mset[OF assms(2)])
  show "mset (userComplaints st ks uid) =
           filter_mset (\<lambda>c. UserID c = uid) (mset (allComplaints st ks'))"
    by (simp only: userComplaints_mset[OF assms(1)] allComplaints_mset[OF assms(2)])
  show "set (userComplaints st ks uid) = {c \<in> ran (complaints st). UserID c = uid}"
    by (auto simp: userComplaints_filter allComplaints_set[OF assms(1)])
  show "userComplaints (st\<lparr>users := us\<rparr>) ks uid = userComplaints st ks uid"
    by (simp add: userComplaints_def)
next
  assume a: "Method r = MethodPost \<and> Body r = Some req \<and>
          TrimSpace (GetComplaintsRequest.SecretCode req) \<noteq> '''' \<and>
          findUserBySecretCode st (userOrder e) (GetComplaintsRequest.SecretCode req) =
            Some (p, user) \<and>
          complaintOrder e = ks"
  then have "getAllComplaintsForUserHandler st e r =
           (st, respondWithJSON StatusOK
                  \<lparr>Success = True, Message = ''User complaints retrieved successfully'',
                   Data = ComplaintsData (userComplaints st (complaintOrder e) (User.ID user)),
                   Error = ''''\<rparr>)"
    using getAllComplaintsForUserHandler_listing[of r req st e p user] by blast
  with a show "Data (snd (snd (getAllComplaintsForUserHandler st e r))) =
              ComplaintsData (userComplaints st ks (User.ID user))"
    by (simp add: respondWithJSON_def)
  show "mset (userComplaints st ks (User.ID user)) =
              filter_mset (\<lambda>c. UserID c = User.ID user)
                (image_mset (\<lambda>k. the (complaints st k)) (mset_set (dom (complaints st))))"
    by (rule userComplaints_mset[OF assms(1)])
qed

text \<open>
  Claim C7, as the code has it (what the two listings return). For a fixed store and any
  two orders in which \<^verbatim>\<open>range\<close> may visit the complaints, the listing for a user holds
  the same complaints the same number of times, namely one entry for each stored complaint
  of that user and nothing else; the listing of all complaints likewise holds one entry
  for each stored complaint. The order of the entries is the order of the visit.
\<close>

theorem C7_same_records_any_order:
  assumes "rangeOrder (complaints st) ks" and "rangeOrder (complaints st) ks'"
  shows "mset (userComplaints st ks uid) = mset (userComplaints st ks' uid) \<and>
         set (userComplaints st ks uid) = {c \<in> ran (complaints st). UserID c = uid} \<and>
         length (userComplaints st ks uid) =
           card {k \<in> dom (complaints st). UserID (the (complaints st k)) = uid} \<and>
         mset (allComplaints st ks) = mset (allComplaints st ks') \<and>
         set (allComplaints st ks) = ran (complaints st) \<and>
         length (allComplaints st ks) = card (dom (complaints st))"
proof (intro conjI)
  show "mset (userComplaints st ks uid) = mset (userComplaints st ks' uid)"
    by (simp add: userComplaints_mset[OF assms(1)] userComplaints_mset[OF assms(2)])
  show "set (userComplaints st ks uid) = {c \<in> ran (complaints st). UserID c = uid}"
    by (auto simp: userComplaints_filter allComplaints_set[OF assms(1)])
  show "mset (allComplaints st ks) = mset (allComplaints st ks')"
    by (simp add: allComplaints_mset[OF assms(1)] allComplaints_mset[OF assms(2)])
  show "set (allComplaints st ks) = ran (complaints st)"
    by (rule allComplaints_set[OF assms(1)])
  have all: "allComplaints st ks = map (\<lambda>k. the (complaints st k)) ks"
    by (rule allComplaints_legal[OF assms(1)])
  from assms(1) have ks: "distinct ks" "set ks = dom (complaints st)"
    by (simp_all add: rangeOrder_def)
  show "length (allComplaints st ks) = card (dom (complaints st))"
    using ks by (simp add: all distinct_card[symmetric])
  have "length (userComplaints st ks uid) =
      length (filter (\<lambda>k. UserID (the (complaints st k)) = uid) ks)"
    by (simp add: userComplaints_filter all filter_map comp_def)
  also have "\<dots> = card (set (filter (\<lambda>k. UserID (the (complaints st k)) = uid) ks))"
    by (rule distinct_card[OF distinct_filter[OF ks(1)], symmetric])
  also have "set (filter (\<lambda>k. UserID (the (complaints st k)) = uid) ks) =
      {k \<in> dom (complaints st). UserID (the (complaints st k)) = uid}"
    using ks(2) by auto
  finally show "length (userComplaints st ks uid) =
      card {k \<in> dom (complaints st). UserID (the (complaints st k)) = uid}" .
qed






lemma views_agree:
  assumes "invariant st" "complaints st k = Some c"
  shows "\<exists>u. users st (UserID c) = Some u \<and>
           (\<exists>d\<in>set (Complaints u). Complaint.ID d = k) \<and>
           (\<forall>d\<in>set (Complaints u). Complaint.ID d = k \<longrightarrow> d = c)"
proof -
  from assms(1) have v: "viewsOK st" and i: "idsOK st" by (simp_all add: invariant_def)
  from i assms(2) have id: "Complaint.ID c = k" by (simp add: idsOK_def)
  from viewsOK_owner[OF v assms(2)]
  obtain u where u: "users st (UserID c) = Some u" "c \<in> set (Complaints u)" by blast
  have "d = c" if "d \<in> set (Complaints u)" "Complaint.ID d = k" for d
    using viewsOK_copy[OF v u(1) that(1)] that(2) assms(2) by simp
  with u id show ?thesis by blast
qed

lemma resolveComplaintHandler_record:
  assumes "resolveOK st e r req p user"
    "complaints st (ResolveComplaintRequest.ComplaintID req) = Some c" "\<not> IsResolved c"
  shows "complaints (fst (resolveComplaintHandler st e r)) k =
           (if k = ResolveComplaintRequest.ComplaintID req
            then Some (c\<lparr>IsResolved := True, ResolvedAt := getCurrentTime (Now e)\<rparr>)
            else complaints st k)"
  by (cases "users st (UserID c)") (simp_all add: resolveComplaintHandler_resolved[OF assms])

text \<open>
  Claim C3 (the stored complaint and the copy in its owner's list agree on
  \<^verbatim>\<open>IsResolved\<close> and \<^verbatim>\<open>ResolvedAt\<close>). In every reachable store, hence after every
  operation, each stored complaint has an owner in the store, the owner's list holds a copy
  with its id, and every such copy carries the same two values. When
  \<open>resolveComplaintHandler\<close> answers 200, the complaint stored under the requested id is
  resolved with the current time, and so is its copy in the owner's list, in the store the
  handler returns.
\<close>

theorem C3_views_agree_on_resolution:
  assumes "reachable st"
  shows "(\<forall>k c. complaints st k = Some c \<longrightarrow>
            (\<exists>u. users st (UserID c) = Some u \<and>
                 (\<exists>d\<in>set (Complaints u). Complaint.ID d = k) \<and>
                 (\<forall>d\<in>set (Complaints u). Complaint.ID d = k \<longrightarrow>
                    IsResolved d = IsResolved c \<and> ResolvedAt d = ResolvedAt c))) \<and>
         (\<forall>e r req. Body r = Some req \<and>
              fst (snd (resolveComplaintHandler st e r)) = StatusOK \<longrightarrow>
            (\<exists>c u. complaints (fst (resolveComplaintHandler st e r))
                      (ResolveComplaintRequest.ComplaintID req) = Some c \<and>
                   IsResolved c \<and> ResolvedAt c = getCurrentTime (Now e) \<and>
                   users (fst (resolveComplaintHandler st e r)) (UserID c) = Some u \<and>
                   (\<exists>d\<in>set (Complaints u).
                      Complaint.ID d = ResolveComplaintRequest.ComplaintID req) \<and>
                   (\<forall>d\<in>set (Complaints u).
                      Complaint.ID d = ResolveComplaintRequest.ComplaintID req \<longrightarrow>
                        IsResolved d \<and> ResolvedAt d = getCurrentTime (Now e))))"
proof (intro conjI allI impI)
  fix k c
  assume "complaints st k = Some c"
  from views_agree[OF invariant_reachable[OF assms] this]
  show "\<exists>u. users st (UserID c) = Some u \<and>
                 (\<exists>d\<in>set (Complaints u). Complaint.ID d = k) \<and>
                 (\<forall>d\<in>set (Complaints u). Complaint.ID d = k \<longrightarrow>
                    IsResolved d = IsResolved c \<and> ResolvedAt d = ResolvedAt c)"
    by blast
next
  fix e r req
  assume a: "Body r = Some req \<and>
              fst (snd (resolveComplaintHandler st e r)) = StatusOK"
  define st' where "st' = fst (resolveComplaintHandler st e r)"
  define cid where "cid = ResolveComplaintRequest.ComplaintID req"
  from a resolveComplaintHandler_cases[of st e r]
  obtain req' p user c0 where ok: "resolveOK st e r req' p user"
      "complaints st (ResolveComplaintRequest.ComplaintID req') = Some c0" "\<not> IsResolved c0"
    by blast
  with a have req: "req' = req" by (simp add: resolveOK_def)
  define c where "c = c0\<lparr>IsResolved := True, ResolvedAt := getCurrentTime (Now e)\<rparr>"
  have c: "complaints st' cid = Some c"
    using resolveComplaintHandler_record[OF ok] req by (simp add: st'_def cid_def c_def)
  have "invariant st'"
    unfolding st'_def using invariant_reachable[OF assms] by (rule invariant_resolveComplaintHandler)
  from views_agree[OF this c]
  obtain u where u: "users st' (UserID c) = Some u"
      "\<exists>d\<in>set (Complaints u). Complaint.ID d = cid"
      "\<forall>d\<in>set (Complaints u). Complaint.ID d = cid \<longrightarrow> d = c"
    by blast
  have res: "IsResolved c" "ResolvedAt c = getCurrentTime (Now e)" by (simp_all add: c_def)
  with u(3) have "\<forall>d\<in>set (Complaints u). Complaint.ID d = cid \<longrightarrow>
      IsResolved d \<and> ResolvedAt d = getCurrentTime (Now e)" by blast
  with c u(1,2) res
  show "\<exists>c u. complaints (fst (resolveComplaintHandler st e r))
                      (ResolveComplaintRequest.ComplaintID req) = Some c \<and>
                   IsResolved c \<and> ResolvedAt c = getCurrentTime (Now e) \<and>
                   users (fst (resolveComplaintHandler st e r)) (UserID c) = Some u \<and>
                   (\<exists>d\<in>set (Complaints u).
                      Complaint.ID d = ResolveComplaintRequest.ComplaintID req) \<and>
                   (\<forall>d\<in>set (Complaints u).
                      Complaint.ID d = ResolveComplaintRequest.ComplaintID req \<longrightarrow>
                        IsResolved d \<and> ResolvedAt d = getCurrentTime (Now e))"
    unfolding st'_def cid_def by blast
qed

lemma resolved_kept_serve:
  assumes "idsOK st" "complaints st k = Some c" "IsResolved c"
  shows "complaints (fst (serve st e call)) k = Some c"
proof (cases call)
  case (Register r)
  from registerHandler_cases[of st e r] show ?thesis
  proof
    assume "fst (registerHandler st e r) = st \<and> fst (snd (registerHandler st e r)) \<noteq> StatusCreated"
    with Register assms(2) show ?thesis by simp
  next
    assume "\<exists>req. registerOK st e r req"
    then obtain req where "registerOK st e r req" by blast
    from registerHandler_created[OF this] Register assms(2) show ?thesis by simp
  qed
next
  case (SubmitComplaint r)
  from submitComplaintHandler_cases[of st e r] show ?thesis
  proof
    assume "fst (submitComplaintHandler st e r) = st \<and>
        fst (snd (submitComplaintHandler st e r)) \<noteq> StatusCreated"
    with SubmitComplaint assms(2) show ?thesis by simp
  next
    assume "\<exists>req p user. submitOK st e r req p user"
    then obtain req p user where ok: "submitOK st e r req p user" by blast
    from idsOK_fresh(2)[OF assms(1)] assms(2) have "k \<noteq> compIDGen st + 1" by auto
    with submitComplaintHandler_created[OF ok] SubmitComplaint assms(2) show ?thesis by simp
  qed
next
  case (ResolveComplaint r)
  from resolveComplaintHandler_cases[of st e r] show ?thesis
  proof
    assume "fst (resolveComplaintHandler st e r) = st \<and>
        fst (snd (resolveComplaintHandler st e r)) \<noteq> StatusOK"
    with ResolveComplaint assms(2) show ?thesis by simp
  next
    assume "\<exists>req p user c. resolveOK st e r req p user \<and>
        complaints st (ResolveComplaintRequest.ComplaintID req) = Some c \<and> \<not> IsResolved c"
    then obtain req p user c0 where ok: "resolveOK st e r req p user"
        "complaints st (ResolveComplaintRequest.ComplaintID req) = Some c0" "\<not> IsResolved c0"
      by blast
    with assms(2,3) have "k \<noteq> ResolveComplaintRequest.ComplaintID req" by auto
    with resolveComplaintHandler_record[OF ok] ResolveComplaint assms(2) show ?thesis by simp
  qed
qed (simp_all add: assms(2) loginHandler_state getAllComplaintsForUserHandler_state
       getAllComplaintsForAdminHandler_state viewComplaintHandler_state healthHandler_state)

lemma resolved_kept_reaches:
  assumes "reaches st st'" "invariant st" "complaints st k = Some c" "IsResolved c"
  shows "complaints st' k = Some c"
  using assms
proof (induction rule: reaches.induct)
  case (reaches_refl st)
  then show ?case by simp
next
  case (reaches_step st st' e call)
  then have "complaints st' k = Some c" by simp
  moreover from reaches_step have "invariant st'" using invariant_reaches by blast
  then have "idsOK st'" by (simp add: invariant_def)
  ultimately show ?case using reaches_step.prems(3) by (intro resolved_kept_serve)
qed

text \<open>
  Claim C5 (resolution is one-way; \<^verbatim>\<open>ResolvedAt\<close> is set exactly when resolved). In every
  reachable store a complaint is resolved if and only if its \<^verbatim>\<open>ResolvedAt\<close> is
  non-empty; a resolved complaint is found unchanged, hence still resolved, in every store
  reachable from there; and a complaint created by \<open>submitComplaintHandler\<close> is unresolved
  with empty \<^verbatim>\<open>ResolvedAt\<close>.
\<close>

theorem C5_resolution_is_one_way:
  assumes "reachable st"
  shows "(\<forall>k c. complaints st k = Some c \<longrightarrow> (IsResolved c \<longleftrightarrow> ResolvedAt c \<noteq> '''')) \<and>
         (\<forall>st' k c. reaches st st' \<and> complaints st k = Some c \<and> IsResolved c \<longrightarrow>
            complaints st' k = Some c) \<and>
         (\<forall>e r. fst (snd (submitComplaintHandler st e r)) = StatusCreated \<longrightarrow>
            (\<exists>c. complaints (fst (submitComplaintHandler st e r)) (compIDGen st + 1) = Some c \<and>
                 \<not> IsResolved c \<and> ResolvedAt c = ''''))"
proof (intro conjI allI impI)
  from assms have inv: "invariant st" by (rule invariant_reachable)
  {
    fix k c
    assume "complaints st k = Some c"
    with inv show "IsResolved c \<longleftrightarrow> ResolvedAt c \<noteq> ''''"
      by (simp add: invariant_def resolvedOK_def)
  }
  {
    fix st' k c
    assume "reaches st st' \<and> complaints st k = Some c \<and> IsResolved c"
    with inv show "complaints st' k = Some c" using resolved_kept_reaches by blast
  }
  fix e r
  assume "fst (snd (submitComplaintHandler st e r)) = StatusCreated"
  with submitComplaintHandler_cases[of st e r]
  obtain req p user where ok: "submitOK st e r req p user" by blast
  show "\<exists>c. complaints (fst (submitComplaintHandler st e r)) (compIDGen st + 1) = Some c \<and>
                 \<not> IsResolved c \<and> ResolvedAt c = ''''"
    by (simp add: submitComplaintHandler_created[OF ok] newComplaintOf_def)
qed

lemma createdUserIDs_simps:
  "createdUserIDs [] = []"
  "createdUserIDs (resp # rs) =
     (case createdUserID resp of None \<Rightarrow> createdUserIDs rs | Some i \<Rightarrow> i # createdUserIDs rs)"
  by (simp_all add: createdUserIDs_def map_filter_simps split: option.splits)

lemma createdComplaintIDs_simps:
  "createdComplaintIDs [] = []"
  "createdComplaintIDs (resp # rs) =
     (case createdComplaintID resp of None \<Rightarrow> createdComplaintIDs rs
      | Some i \<Rightarrow> i # createdComplaintIDs rs)"
  by (simp_all add: createdComplaintIDs_def map_filter_simps split: option.splits)

lemma registerHandler_counters:
  "(createdUserID (snd (registerHandler st e r)) = None \<and>
      userIDGen (fst (registerHandler st e r)) = userIDGen st \<or>
    createdUserID (snd (registerHandler st e r)) = Some (userIDGen st + 1) \<and>
      userIDGen (fst (registerHandler st e r)) = userIDGen st + 1) \<and>
   createdComplaintID (snd (registerHandler st e r)) = None \<and>
   compIDGen (fst (registerHandler st e r)) = compIDGen st"
proof (cases "\<exists>req. registerOK st e r req")
  case True
  then obtain req where ok: "registerOK st e r req" by blast
  show ?thesis
    by (simp add: registerHandler_created[OF ok] respondWithJSON_def newUserOf_def)
next
  case False
  then have "registerHandler st e r = (st, snd (registerHandler st e r))"
      and "fst (snd (registerHandler st e r)) \<noteq> StatusCreated"
    using registerHandler_cases[of st e r] by (auto simp: prod_eq_iff)
  moreover have "Data (snd (snd (registerHandler st e r))) = NoData \<or>
      fst (snd (registerHandler st e r)) = StatusCreated"
    by (cases "Body r")
       (auto simp: registerHandler_def respondWithError_def respondWithJSON_def Let_def)
  ultimately show ?thesis
    by (cases "snd (registerHandler st e r)") auto
qed

lemma submitComplaintHandler_counters:
  "(createdComplaintID (snd (submitComplaintHandler st e r)) = None \<and>
      compIDGen (fst (submitComplaintHandler st e r)) = compIDGen st \<or>
    createdComplaintID (snd (submitComplaintHandler st e r)) = Some (compIDGen st + 1) \<and>
      compIDGen (fst (submitComplaintHandler st e r)) = compIDGen st + 1) \<and>
   createdUserID (snd (submitComplaintHandler st e r)) = None \<and>
   userIDGen (fst (submitComplaintHandler st e r)) = userIDGen st"
proof (cases "\<exists>req p user. submitOK st e r req p user")
  case True
  then obtain req p user where ok: "submitOK st e r req p user" by blast
  show ?thesis
    by (simp add: submitComplaintHandler_created[OF ok] respondWithJSON_def newComplaintOf_def)
next
  case False
  then have "submitComplaintHandler st e r = (st, snd (submitComplaintHandler st e r))"
      and "fst (snd (submitComplaintHandler st e r)) \<noteq> StatusCreated"
    using submitComplaintHandler_cases[of st e r] by (auto simp: prod_eq_iff)
  then show ?thesis
    by (cases "snd (submitComplaintHandler st e r)") (auto split: Payload.splits)
qed

lemma resolveComplaintHandler_counters:
  "createdUserID (snd (resolveComplaintHandler st e r)) = None \<and>
   createdComplaintID (snd (resolveComplaintHandler st e r)) = None \<and>
   userIDGen (fst (resolveComplaintHandler st e r)) = userIDGen st \<and>
   compIDGen (fst (resolveComplaintHandler st e r)) = compIDGen st"
proof -
  have "fst (snd (resolveComplaintHandler st e r)) \<noteq> StatusCreated"
    by (cases "Body r")
       (auto simp: resolveComplaintHandler_def respondWithError_def respondWithJSON_def Let_def
             split: option.splits)
  moreover have "userIDGen (fst (resolveComplaintHandler st e r)) = userIDGen st \<and>
      compIDGen (fst (resolveComplaintHandler st e r)) = compIDGen st"
    by (cases "Body r")
       (auto simp: resolveComplaintHandler_def Let_def split: option.splits)
  ultimately show ?thesis
    by (cases "snd (resolveComplaintHandler st e r)") (auto split: Payload.splits)
qed

lemma readonly_counters:
  assumes "fst p = st" "fst (snd p) \<noteq> StatusCreated"
  shows "createdUserID (snd p) = None \<and> createdComplaintID (snd p) = None \<and>
         userIDGen (fst p) = userIDGen st \<and> compIDGen (fst p) = compIDGen st"
  using assms by (cases p; cases "snd p") (auto split: Payload.splits)

lemma loginHandler_status: "fst (snd (loginHandler st e r)) \<noteq> StatusCreated"
  by (cases "Body r")
     (auto simp: loginHandler_def respondWithError_def respondWithJSON_def split: option.splits)

lemma getAllComplaintsForUserHandler_status:
  "fst (snd (getAllComplaintsForUserHandler st e r)) \<noteq> StatusCreated"
  by (cases "Body r")
     (auto simp: getAllComplaintsForUserHandler_def respondWithError_def respondWithJSON_def
           split: option.splits)

lemma getAllComplaintsForAdminHandler_status:
  "fst (snd (getAllComplaintsForAdminHandler st e r)) \<noteq> StatusCreated"
  by (cases "Body r")
     (auto simp: getAllComplaintsForAdminHandler_def respondWithError_def respondWithJSON_def
           split: option.splits)

lemma viewComplaintHandler_status: "fst (snd (viewComplaintHandler st e r)) \<noteq> StatusCreated"
  by (cases "Body r")
     (auto simp: viewComplaintHandler_def respondWithError_def respondWithJSON_def
           split: option.splits)

lemma healthHandler_status: "fst (snd (healthHandler st)) \<noteq> StatusCreated"
  by (simp add: healthHandler_def respondWithJSON_def)

lemma serve_counters:
  "(createdUserID (snd (serve st e call)) = None \<and>
      userIDGen (fst (serve st e call)) = userIDGen st \<or>
    createdUserID (snd (serve st e call)) = Some (userIDGen st + 1) \<and>
      userIDGen (fst (serve st e call)) = userIDGen st + 1) \<and>
   (createdComplaintID (snd (serve st e call)) = None \<and>
      compIDGen (fst (serve st e call)) = compIDGen st \<or>
    createdComplaintID (snd (serve st e call)) = Some (compIDGen st + 1) \<and>
      compIDGen (fst (serve st e call)) = compIDGen st + 1)"
proof (cases call)
  case (Register r)
  with registerHandler_counters[of st e r] show ?thesis by auto
next
  case (Login r)
  with readonly_counters[OF loginHandler_state loginHandler_status, of st e r]
  show ?thesis by simp
next
  case (SubmitComplaint r)
  with submitComplaintHandler_counters[of st e r] show ?thesis by auto
next
  case (GetAllComplaintsForUser r)
  with readonly_counters[OF getAllComplaintsForUserHandler_state
      getAllComplaintsForUserHandler_status, of st e r]
  show ?thesis by simp
next
  case (GetAllComplaintsForAdmin r)
  with readonly_counters[OF getAllComplaintsForAdminHandler_state
      getAllComplaintsForAdminHandler_status, of st e r]
  show ?thesis by simp
next
  case (ViewComplaint r)
  with readonly_counters[OF viewComplaintHandler_state viewComplaintHandler_status, of st e r]
  show ?thesis by simp
next
  case (ResolveComplaint r)
  with resolveComplaintHandler_counters[of st e r] show ?thesis by simp
next
  case Health
  with readonly_counters[OF healthHandler_state healthHandler_status, of st]
  show ?thesis by simp
qed

lemma run_counters_mono:
  "userIDGen st \<le> userIDGen (fst (run st evs)) \<and> compIDGen st \<le> compIDGen (fst (run st evs))"
proof (induction evs arbitrary: st)
  case Nil
  then show ?case by simp
next
  case (Cons ev evs)
  obtain e call where ev: "ev = (e, call)" by (cases ev)
  from serve_counters[of st e call]
  have "userIDGen st \<le> userIDGen (fst (serve st e call))"
    and "compIDGen st \<le> compIDGen (fst (serve st e call))" by auto
  with Cons.IH[of "fst (serve st e call)"] show ?case
    by (simp add: ev split_beta Let_def)
qed

lemma run_createdUserIDs:
  "createdUserIDs (snd (run st evs)) = [userIDGen st + 1 .. userIDGen (fst (run st evs))]"
proof (induction evs arbitrary: st)
  case Nil
  then show ?case by (simp add: createdUserIDs_simps)
next
  case (Cons ev evs)
  obtain e call where ev: "ev = (e, call)" by (cases ev)
  define st1 where "st1 = fst (serve st e call)"
  have run: "run st (ev # evs) = (fst (run st1 evs), snd (serve st e call) # snd (run st1 evs))"
    by (simp add: ev st1_def split_beta Let_def)
  from serve_counters[of st e call]
  consider (none) "createdUserID (snd (serve st e call)) = None" "userIDGen st1 = userIDGen st"
    | (some) "createdUserID (snd (serve st e call)) = Some (userIDGen st + 1)"
        "userIDGen st1 = userIDGen st + 1"
    unfolding st1_def by auto
  then show ?case
  proof cases
    case none
    with Cons.IH[of st1] show ?thesis by (simp add: run createdUserIDs_simps)
  next
    case some
    from run_counters_mono[of st1 evs] some(2)
    have "userIDGen st + 1 \<le> userIDGen (fst (run st1 evs))" by simp
    then have "[userIDGen st + 1 .. userIDGen (fst (run st1 evs))] =
        (userIDGen st + 1) # [userIDGen st + 1 + 1 .. userIDGen (fst (run st1 evs))]"
      by (rule upto_rec1)
    with Cons.IH[of st1] some show ?thesis by (simp add: run createdUserIDs_simps)
  qed
qed

lemma run_createdComplaintIDs:
  "createdComplaintIDs (snd (run st evs)) = [compIDGen st + 1 .. compIDGen (fst (run st evs))]"
proof (induction evs arbitrary: st)
  case Nil
  then show ?case by (simp add: createdComplaintIDs_simps)
next
  case (Cons ev evs)
  obtain e call where ev: "ev = (e, call)" by (cases ev)
  define st1 where "st1 = fst (serve st e call)"
  have run: "run st (ev # evs) = (fst (run st1 evs), snd (serve st e call) # snd (run st1 evs))"
    by (simp add: ev st1_def split_beta Let_def)
  from serve_counters[of st e call]
  consider (none) "createdComplaintID (snd (serve st e call)) = None" "compIDGen st1 = compIDGen st"
    | (some) "createdComplaintID (snd (serve st e call)) = Some (compIDGen st + 1)"
        "compIDGen st1 = compIDGen st + 1"
    unfolding st1_def by auto
  then show ?case
  proof cases
    case none
    with Cons.IH[of st1] show ?thesis by (simp add: run createdComplaintIDs_simps)
  next
    case some
    from run_counters_mono[of st1 evs] some(2)
    have "compIDGen st + 1 \<le> compIDGen (fst (run st1 evs))" by simp
    then have "[compIDGen st + 1 .. compIDGen (fst (run st1 evs))] =
        (compIDGen st + 1) # [compIDGen st + 1 + 1 .. compIDGen (fst (run st1 evs))]"
      by (rule upto_rec1)
    with Cons.IH[of st1] some show ?thesis by (simp add: run createdComplaintIDs_simps)
  qed
qed

text \<open>
  Claim C6 (ids come from two independent counters, starting at 1, never reused). Both
  counters start at 0; start-up gives the administrator id 1. The account ids handed out
  during any run are, in order, the counter's value at the start plus 1 up to its value at
  the end, so after start-up they begin with 2; the same holds for complaint ids. No
  request lowers a counter, registering leaves the complaint counter alone and submitting
  leaves the account counter alone. In a reachable store the keys in use are exactly 1 up
  to the counter and every object carries its key as id, so the next id is unused.
\<close>

theorem C6_ids_from_counters:
  "userIDGen storage = 0 \<and> compIDGen storage = 0 \<and>
   userIDGen (createDefaultAdmin storage) = 1 \<and>
   (\<exists>admin. users (createDefaultAdmin storage) 1 = Some admin \<and> User.ID admin = 1 \<and> IsAdmin admin) \<and>
   createdUserIDs (snd (run (createDefaultAdmin storage) evs)) =
     [2 .. userIDGen (fst (run (createDefaultAdmin storage) evs))] \<and>
   createdUserIDs (snd (run st evs)) = [userIDGen st + 1 .. userIDGen (fst (run st evs))] \<and>
   createdComplaintIDs (snd (run st evs)) = [compIDGen st + 1 .. compIDGen (fst (run st evs))] \<and>
   userIDGen st \<le> userIDGen (fst (serve st e call)) \<and>
   compIDGen st \<le> compIDGen (fst (serve st e call)) \<and>
   compIDGen (fst (registerHandler st e r)) = compIDGen st \<and>
   userIDGen (fst (submitComplaintHandler st e r')) = userIDGen st \<and>
   (reachable st \<longrightarrow>
      dom (users st) = {1 .. userIDGen st} \<and> dom (complaints st) = {1 .. compIDGen st} \<and>
      (\<forall>k u. users st k = Some u \<longrightarrow> User.ID u = k) \<and>
      (\<forall>k c. complaints st k = Some c \<longrightarrow> Complaint.ID c = k))"
proof (intro conjI impI)
  show "userIDGen storage = 0" "compIDGen storage = 0" by (simp_all add: storage_def)
  show "userIDGen (createDefaultAdmin storage) = 1"
    by (simp add: createDefaultAdmin_def storage_def Let_def)
  show "\<exists>admin. users (createDefaultAdmin storage) 1 = Some admin \<and> User.ID admin = 1 \<and> IsAdmin admin"
    by (simp add: createDefaultAdmin_def storage_def Let_def)
  have "userIDGen (createDefaultAdmin storage) + 1 = 2"
    by (simp add: createDefaultAdmin_def storage_def Let_def)
  with run_createdUserIDs[of "createDefaultAdmin storage" evs]
  show "createdUserIDs (snd (run (createDefaultAdmin storage) evs)) =
     [2 .. userIDGen (fst (run (createDefaultAdmin storage) evs))]" by simp
  show "createdUserIDs (snd (run st evs)) = [userIDGen st + 1 .. userIDGen (fst (run st evs))]"
    by (rule run_createdUserIDs)
  show "createdComplaintIDs (snd (run st evs)) = [compIDGen st + 1 .. compIDGen (fst (run st evs))]"
    by (rule run_createdComplaintIDs)
  from serve_counters[of st e call]
  show "userIDGen st \<le> userIDGen (fst (serve st e call))"
    and "compIDGen st \<le> compIDGen (fst (serve st e call))" by auto
  show "compIDGen (fst (registerHandler st e r)) = compIDGen st"
    using registerHandler_counters[of st e r] by simp
  show "userIDGen (fst (submitComplaintHandler st e r')) = userIDGen st"
    using submitComplaintHandler_counters[of st e r'] by simp
next
  assume "reachable st"
  then have "idsOK st" using invariant_reachable by (simp add: invariant_def)
  then show "dom (users st) = {1 .. userIDGen st}" "dom (complaints st) = {1 .. compIDGen st}"
    "\<forall>k u. users st k = Some u \<longrightarrow> User.ID u = k"
    "\<forall>k c. complaints st k = Some c \<longrightarrow> Complaint.ID c = k"
    by (simp_all add: idsOK_def)
qed

section \<open>Properties of single requests\<close>

text \<open>
  Claim C8 (ratings outside 1..10 are rejected, ratings inside are accepted). For a POST
  request with a decodable body: a rating below 1 or above 10 is answered with 400, no
  payload, and the store unchanged; a rating from 1 to 10 with non-blank code, title and
  summary and a code that belongs to a user is answered with 201, and the store then holds,
  under the next id, a complaint with that rating owned by that user.
\<close>

theorem C8_rating_range:
  fixes r :: "SubmitComplaintRequest Request"
  assumes "Method r = MethodPost" and "Body r = Some req"
  shows
    "(SubmitComplaintRequest.Rating req < 1 \<or> 10 < SubmitComplaintRequest.Rating req \<longrightarrow>
        fst (submitComplaintHandler st e r) = st \<and>
        fst (snd (submitComplaintHandler st e r)) = StatusBadRequest \<and>
        \<not> Success (snd (snd (submitComplaintHandler st e r))) \<and>
        Data (snd (snd (submitComplaintHandler st e r))) = NoData) \<and>
     (1 \<le> SubmitComplaintRequest.Rating req \<and> SubmitComplaintRequest.Rating req \<le> 10 \<and>
      TrimSpace (SubmitComplaintRequest.SecretCode req) \<noteq> '''' \<and>
      TrimSpace (SubmitComplaintRequest.Title req) \<noteq> '''' \<and>
      TrimSpace (SubmitComplaintRequest.Summary req) \<noteq> '''' \<and>
      findUserBySecretCode st (userOrder e) (SubmitComplaintRequest.SecretCode req) = Some (p, user) \<longrightarrow>
        fst (snd (submitComplaintHandler st e r)) = StatusCreated \<and>
        (\<exists>c. complaints (fst (submitComplaintHandler st e r)) (compIDGen st + 1) = Some c \<and>
             Data (snd (snd (submitComplaintHandler st e r))) = ComplaintData c \<and>
             Complaint.ID c = compIDGen st + 1 \<and>
             Complaint.Rating c = SubmitComplaintRequest.Rating req \<and>
             UserID c = User.ID user))"
proof (intro conjI impI)
  assume out: "SubmitComplaintRequest.Rating req < 1 \<or> 10 < SubmitComplaintRequest.Rating req"
  with assms show "fst (submitComplaintHandler st e r) = st"
    by (simp add: submitComplaintHandler_def)
  from out assms show "fst (snd (submitComplaintHandler st e r)) = StatusBadRequest"
    by (simp add: submitComplaintHandler_def respondWithError_def respondWithJSON_def)
  from out assms show "\<not> Success (snd (snd (submitComplaintHandler st e r)))"
    by (simp add: submitComplaintHandler_def respondWithError_def respondWithJSON_def)
  from out assms show "Data (snd (snd (submitComplaintHandler st e r))) = NoData"
    by (simp add: submitComplaintHandler_def respondWithError_def respondWithJSON_def)
next
  assume "1 \<le> SubmitComplaintRequest.Rating req \<and> SubmitComplaintRequest.Rating req \<le> 10 \<and>
      TrimSpace (SubmitComplaintRequest.SecretCode req) \<noteq> '''' \<and>
      TrimSpace (SubmitComplaintRequest.Title req) \<noteq> '''' \<and>
      TrimSpace (SubmitComplaintRequest.Summary req) \<noteq> '''' \<and>
      findUserBySecretCode st (userOrder e) (SubmitComplaintRequest.SecretCode req) = Some (p, user)"
  with assms have ok: "submitOK st e r req p user"
    by (simp add: submitOK_def)
  show "fst (snd (submitComplaintHandler st e r)) = StatusCreated"
    by (simp add: submitComplaintHandler_created[OF ok] respondWithJSON_def)
  show "\<exists>c. complaints (fst (submitComplaintHandler st e r)) (compIDGen st + 1) = Some c \<and>
             Data (snd (snd (submitComplaintHandler st e r))) = ComplaintData c \<and>
             Complaint.ID c = compIDGen st + 1 \<and>
             Complaint.Rating c = SubmitComplaintRequest.Rating req \<and>
             UserID c = User.ID user"
    by (simp add: submitComplaintHandler_created[OF ok] respondWithJSON_def newComplaintOf_def)
qed

text \<open>
  Claim C10 (who may view a complaint). The handler rejects a blank code and an id that is
  not positive before it looks the caller up. For a request that has passed these checks
  and whose code belongs to a user: the store is unchanged; if no complaint is stored under
  the id the answer is 404, whoever asks; if one is stored, the answer is 200 with that
  complaint exactly when the caller is an administrator or the complaint's \<^verbatim>\<open>UserID\<close> is
  the caller's id, and 403 exactly when neither holds.
\<close>

theorem C10_view_permission:
  fixes r :: "ViewComplaintRequest Request"
  assumes "Method r = MethodPost" and "Body r = Some req"
    and "TrimSpace (ViewComplaintRequest.SecretCode req) \<noteq> ''''"
    and "0 < ViewComplaintRequest.ComplaintID req"
    and "findUserBySecretCode st (userOrder e) (ViewComplaintRequest.SecretCode req) = Some (p, user)"
  shows
    "fst (viewComplaintHandler st e r) = st \<and>
     (complaints st (ViewComplaintRequest.ComplaintID req) = None \<longrightarrow>
        snd (viewComplaintHandler st e r) = respondWithError StatusNotFound ''Complaint not found'') \<and>
     (\<forall>c. complaints st (ViewComplaintRequest.ComplaintID req) = Some c \<longrightarrow>
        ((fst (snd (viewComplaintHandler st e r)) = StatusOK \<and>
          Data (snd (snd (viewComplaintHandler st e r))) = ComplaintData c)
           \<longleftrightarrow> (IsAdmin user \<or> UserID c = User.ID user)) \<and>
        (fst (snd (viewComplaintHandler st e r)) = StatusForbidden
           \<longleftrightarrow> \<not> (IsAdmin user \<or> UserID c = User.ID user)))"
  using assms
  by (cases "complaints st (ViewComplaintRequest.ComplaintID req)")
     (auto simp: viewComplaintHandler_def respondWithError_def respondWithJSON_def)

text \<open>
  Claim C4 (outcomes of resolving). Whenever \<open>resolveComplaintHandler\<close> does not answer
  200 it returns the store unchanged. For a request that has passed the handler's own
  checks (POST, decodable body, non-blank code, positive id, code of an administrator):
  the answer is 404 "Complaint not found" exactly when no complaint is stored under the id,
  400 "Complaint is already resolved" exactly when one is stored and is resolved, and 200
  exactly when one is stored and is not resolved.
\<close>

theorem C4_resolve_outcomes:
  fixes r :: "ResolveComplaintRequest Request"
  shows
    "(fst (snd (resolveComplaintHandler st e r)) \<noteq> StatusOK \<longrightarrow>
        fst (resolveComplaintHandler st e r) = st) \<and>
     (Method r = MethodPost \<and> Body r = Some req \<and>
      TrimSpace (ResolveComplaintRequest.SecretCode req) \<noteq> '''' \<and>
      0 < ResolveComplaintRequest.ComplaintID req \<and>
      findUserBySecretCode st (userOrder e) (ResolveComplaintRequest.SecretCode req) = Some (p, user) \<and>
      IsAdmin user \<longrightarrow>
        (snd (resolveComplaintHandler st e r) = respondWithError StatusNotFound ''Complaint not found''
           \<longleftrightarrow> complaints st (ResolveComplaintRequest.ComplaintID req) = None) \<and>
        (snd (resolveComplaintHandler st e r) =
           respondWithError StatusBadRequest ''Complaint is already resolved''
           \<longleftrightarrow> (\<exists>c. complaints st (ResolveComplaintRequest.ComplaintID req) = Some c \<and> IsResolved c)) \<and>
        (fst (snd (resolveComplaintHandler st e r)) = StatusOK
           \<longleftrightarrow> (\<exists>c. complaints st (ResolveComplaintRequest.ComplaintID req) = Some c \<and> \<not> IsResolved c)))"
proof (intro conjI impI)
  assume "fst (snd (resolveComplaintHandler st e r)) \<noteq> StatusOK"
  then show "fst (resolveComplaintHandler st e r) = st"
    using resolveComplaintHandler_cases[of st e r]
    by (auto simp: resolveComplaintHandler_resolved respondWithJSON_def)
next
  assume a: "Method r = MethodPost \<and> Body r = Some req \<and>
      TrimSpace (ResolveComplaintRequest.SecretCode req) \<noteq> '''' \<and>
      0 < ResolveComplaintRequest.ComplaintID req \<and>
      findUserBySecretCode st (userOrder e) (ResolveComplaintRequest.SecretCode req) = Some (p, user) \<and>
      IsAdmin user"
  show "snd (resolveComplaintHandler st e r) = respondWithError StatusNotFound ''Complaint not found''
           \<longleftrightarrow> complaints st (ResolveComplaintRequest.ComplaintID req) = None"
    using a by (cases "complaints st (ResolveComplaintRequest.ComplaintID req)")
      (auto simp: resolveComplaintHandler_def respondWithError_def respondWithJSON_def Let_def)
  show "snd (resolveComplaintHandler st e r) =
           respondWithError StatusBadRequest ''Complaint is already resolved''
           \<longleftrightarrow> (\<exists>c. complaints st (ResolveComplaintRequest.ComplaintID req) = Some c \<and> IsResolved c)"
    using a by (cases "complaints st (ResolveComplaintRequest.ComplaintID req)")
      (auto simp: resolveComplaintHandler_def respondWithError_def respondWithJSON_def Let_def)
  show "fst (snd (resolveComplaintHandler st e r)) = StatusOK
           \<longleftrightarrow> (\<exists>c. complaints st (ResolveComplaintRequest.ComplaintID req) = Some c \<and> \<not> IsResolved c)"
    using a by (cases "complaints st (ResolveComplaintRequest.ComplaintID req)")
      (auto simp: resolveComplaintHandler_def respondWithError_def respondWithJSON_def Let_def)
qed

section \<open>The concrete run, step by step\<close>

text \<open>
  The handlers evaluated on the concrete requests. The clock reads Unix time 5,
  formatted \<open>2024-01-02 03:04:05\<close>.
\<close>

lemma trim_demo:
  "TrimSpace ''Ann'' = ''Ann''" "TrimSpace ''ann@x.com'' = ''ann@x.com''"
  "TrimSpace ''SEC_5_3'' = ''SEC_5_3''" "TrimSpace ''Noise'' = ''Noise''"
  "TrimSpace ''Too loud'' = ''Too loud''" "TrimSpace ''ADMIN_SECRET_123'' = ''ADMIN_SECRET_123''"
  by code_simp+

lemma format_demo:
  "formatInt 5 = ''5''" "formatInt 3 = ''3''" "formatInt 4 = ''4''"
  "getCurrentTime demoNow = ''2024-01-02 03:04:05''"
  "Unix demoNow = 5"
  by code_simp+

lemma boot: "createDefaultAdmin storage = stBoot"
  by (simp add: createDefaultAdmin_def storage_def stBoot_def adminUser_def Let_def)

lemma registerAnn_ok:
  "registerOK stBoot (env [1] []) registerAnn
     \<lparr>RegisterRequest.Name = ''Ann'', RegisterRequest.Email = ''ann@x.com''\<rparr>"
  by (simp add: registerOK_def registerAnn_def post_def env_def trim_demo findUserByEmail_def
      rangeMap_def map_filter_def stBoot_def adminUser_def)

lemma registerAnn_result:
  "registerHandler stBoot (env [1] []) registerAnn =
     (stAnn, respondWithJSON StatusCreated
        \<lparr>Success = True, Message = ''User registered successfully'',
         Data = UserData annUser, Error = ''''\<rparr>)"
  by (subst registerHandler_created[OF registerAnn_ok])
     (simp add: newUserOf_def trim_demo format_demo
        generateSecretCode_def env_def stBoot_def stAnn_def annUser_def)

lemma findAnn:
  "findUserBySecretCode stAnn [2, 1] ''SEC_5_3'' = Some (2, annUser)"
  by (simp add: findUserBySecretCode_def rangeMap_def map_filter_def stAnn_def annUser_def adminUser_def)

lemma submitNoise_ok:
  "submitOK stAnn (env [2, 1] []) submitNoise
     \<lparr>SubmitComplaintRequest.SecretCode = ''SEC_5_3'',
       SubmitComplaintRequest.Title = ''Noise'', SubmitComplaintRequest.Summary = ''Too loud'',
       SubmitComplaintRequest.Rating = 5\<rparr> 2 annUser"
  by (simp add: submitOK_def submitNoise_def post_def env_def trim_demo findAnn)

lemma submitNoise_result:
  "submitComplaintHandler stAnn (env [2, 1] []) submitNoise =
     (stFiled, respondWithJSON StatusCreated
        \<lparr>Success = True, Message = ''Complaint submitted successfully'',
         Data = ComplaintData noise, Error = ''''\<rparr>)"
  by (subst submitComplaintHandler_created[OF submitNoise_ok])
     (simp add: newComplaintOf_def trim_demo
        format_demo env_def stAnn_def stFiled_def annUser_def noise_def)

lemma findAdmin_filed:
  "findUserBySecretCode stFiled [1, 2] ''ADMIN_SECRET_123'' = Some (1, adminUser)"
  by (simp add: findUserBySecretCode_def rangeMap_def map_filter_def stFiled_def adminUser_def)

lemma resolveNoise_ok:
  "resolveOK stFiled (env [1, 2] [1]) resolveNoise
     \<lparr>ResolveComplaintRequest.SecretCode = ''ADMIN_SECRET_123'',
       ResolveComplaintRequest.ComplaintID = 1\<rparr> 1 adminUser"
  by (simp add: resolveOK_def resolveNoise_def post_def env_def trim_demo findAdmin_filed)
     (simp add: adminUser_def)

lemma resolveNoise_result:
  "resolveComplaintHandler stFiled (env [1, 2] [1]) resolveNoise =
     (stResolved, respondWithJSON StatusOK
        \<lparr>Success = True, Message = ''Complaint resolved successfully'',
         Data = ComplaintData noiseResolved, Error = ''''\<rparr>)"
proof -
  have c: "complaints stFiled (ResolveComplaintRequest.ComplaintID
      \<lparr>ResolveComplaintRequest.SecretCode = ''ADMIN_SECRET_123'',
       ResolveComplaintRequest.ComplaintID = 1\<rparr>) = Some noise"
    by (simp add: stFiled_def)
  have n: "\<not> IsResolved noise" by (simp add: noise_def)
  show ?thesis
    by (subst resolveComplaintHandler_resolved[OF resolveNoise_ok c n])
       (simp add: format_demo env_def stFiled_def stResolved_def noiseResolved_def noise_def)
qed

lemma legal_demo:
  "legalEnv stBoot (env [1] [])" "legalEnv stAnn (env [2, 1] [])"
  "legalEnv stFiled (env [1, 2] [1])"
  by (auto simp: legalEnv_def rangeOrder_def env_def stBoot_def stAnn_def stFiled_def)

lemma reachable_stAnn: "reachable stAnn"
proof -
  have "reaches stBoot (fst (serve stBoot (env [1] []) (Register registerAnn)))"
    by (rule reaches_step[OF reaches_refl legal_demo(1)])
  then show ?thesis by (simp add: reachable_def boot registerAnn_result)
qed

lemma reachable_stFiled: "reachable stFiled"
proof -
  have "reaches (createDefaultAdmin storage)
      (fst (serve stAnn (env [2, 1] []) (SubmitComplaint submitNoise)))"
    by (rule reaches_step[OF reachable_stAnn[unfolded reachable_def] legal_demo(2)])
  then show ?thesis by (simp add: reachable_def submitNoise_result)
qed

lemma reachable_stResolved: "reachable stResolved"
proof -
  have "reaches (createDefaultAdmin storage)
      (fst (serve stFiled (env [1, 2] [1]) (ResolveComplaint resolveNoise)))"
    by (rule reaches_step[OF reachable_stFiled[unfolded reachable_def] legal_demo(3)])
  then show ?thesis by (simp add: reachable_def resolveNoise_result)
qed

lemma trim_demo2:
  "TrimSpace ''Leak'' = ''Leak''" "TrimSpace ''Pipe drips'' = ''Pipe drips''"
  "TrimSpace ''Bo'' = ''Bo''" "TrimSpace ''Cy'' = ''Cy''"
  "TrimSpace ''dup@x.com'' = ''dup@x.com''" "TrimSpace '' dup@x.com'' = ''dup@x.com''"
  by code_simp+

lemma findAnn_filed:
  "findUserBySecretCode stFiled [1, 2] ''SEC_5_3'' = Some (2, annUser\<lparr>Complaints := [noise]\<rparr>)"
  by (simp add: findUserBySecretCode_def rangeMap_def map_filter_def stFiled_def annUser_def
      adminUser_def)

lemma submitLeak_ok:
  "1 \<le> rating \<Longrightarrow> rating \<le> 10 \<Longrightarrow>
   submitOK stFiled (env [1, 2] [1]) (submitLeak rating)
     \<lparr>SubmitComplaintRequest.SecretCode = ''SEC_5_3'',
       SubmitComplaintRequest.Title = ''Leak'', SubmitComplaintRequest.Summary = ''Pipe drips'',
       SubmitComplaintRequest.Rating = rating\<rparr> 2 (annUser\<lparr>Complaints := [noise]\<rparr>)"
  by (simp add: submitOK_def submitLeak_def post_def env_def trim_demo trim_demo2 findAnn_filed)

lemma submitLeak_result:
  "submitComplaintHandler stFiled (env [1, 2] [1]) (submitLeak 10) =
     (stTwo, respondWithJSON StatusCreated
        \<lparr>Success = True, Message = ''Complaint submitted successfully'',
         Data = ComplaintData leak, Error = ''''\<rparr>)"
  by (subst submitComplaintHandler_created[OF submitLeak_ok])
     (simp_all add: newComplaintOf_def trim_demo2 format_demo env_def stFiled_def stTwo_def
        annUser_def leak_def)

lemma reachable_stTwo: "reachable stTwo"
proof -
  have "reaches (createDefaultAdmin storage)
      (fst (serve stFiled (env [1, 2] [1]) (SubmitComplaint (submitLeak 10))))"
    by (rule reaches_step[OF reachable_stFiled[unfolded reachable_def] legal_demo(3)])
  then show ?thesis by (simp add: reachable_def submitLeak_result)
qed

lemma rangeOrder_stTwo:
  "rangeOrder (complaints stTwo) [1, 2]" "rangeOrder (complaints stTwo) [2, 1]"
  "rangeOrder (users stTwo) [1, 2]"
  by (auto simp: rangeOrder_def stTwo_def)

lemma findAnn_two:
  "findUserBySecretCode stTwo [1, 2] ''SEC_5_3'' = Some (2, annUser\<lparr>Complaints := [noise, leak]\<rparr>)"
  by (simp add: findUserBySecretCode_def rangeMap_def map_filter_def stTwo_def annUser_def
      adminUser_def)

lemma findAdmin_two:
  "findUserBySecretCode stTwo [1, 2] ''ADMIN_SECRET_123'' = Some (1, adminUser)"
  by (simp add: findUserBySecretCode_def rangeMap_def map_filter_def stTwo_def adminUser_def)

lemma userComplaints_stTwo:
  "userComplaints stTwo [1, 2] 2 = [noise, leak]" "userComplaints stTwo [2, 1] 2 = [leak, noise]"
  "allComplaints stTwo [1, 2] = [noise, leak]" "allComplaints stTwo [2, 1] = [leak, noise]"
  by (simp_all add: userComplaints_def allComplaints_def rangeMap_def map_filter_def stTwo_def
      noise_def leak_def)

lemma noise_neq_leak: "noise \<noteq> leak"
  by (simp add: noise_def leak_def)

text \<open>
  Claim C7, the part that says the sequence is the same on every invocation: the store
  after Ann's two complaints is reachable, both orders of visiting its two complaints are
  legal, and the two listings answer with the complaints in opposite orders.
\<close>

theorem C7_counterexample:
  "reachable stTwo \<and>
   legalEnv stTwo (env [1, 2] [1, 2]) \<and> legalEnv stTwo (env [1, 2] [2, 1]) \<and>
   Data (snd (snd (getAllComplaintsForUserHandler stTwo (env [1, 2] [1, 2]) listMine))) =
     ComplaintsData [noise, leak] \<and>
   Data (snd (snd (getAllComplaintsForUserHandler stTwo (env [1, 2] [2, 1]) listMine))) =
     ComplaintsData [leak, noise] \<and>
   Data (snd (snd (getAllComplaintsForAdminHandler stTwo (env [1, 2] [1, 2]) listAll))) =
     ComplaintsData [noise, leak] \<and>
   Data (snd (snd (getAllComplaintsForAdminHandler stTwo (env [1, 2] [2, 1]) listAll))) =
     ComplaintsData [leak, noise] \<and>
   [noise, leak] \<noteq> [leak, noise]"
proof (intro conjI)
  show "reachable stTwo" by (rule reachable_stTwo)
  show "legalEnv stTwo (env [1, 2] [1, 2])" "legalEnv stTwo (env [1, 2] [2, 1])"
    using rangeOrder_stTwo by (simp_all add: legalEnv_def env_def)
  show "Data (snd (snd (getAllComplaintsForUserHandler stTwo (env [1, 2] [1, 2]) listMine))) =
     ComplaintsData [noise, leak]"
    by (simp add: getAllComplaintsForUserHandler_def listMine_def post_def env_def trim_demo
        findAnn_two userComplaints_stTwo respondWithJSON_def annUser_def)
  show "Data (snd (snd (getAllComplaintsForUserHandler stTwo (env [1, 2] [2, 1]) listMine))) =
     ComplaintsData [leak, noise]"
    by (simp add: getAllComplaintsForUserHandler_def listMine_def post_def env_def trim_demo
        findAnn_two userComplaints_stTwo respondWithJSON_def annUser_def)
  show "Data (snd (snd (getAllComplaintsForAdminHandler stTwo (env [1, 2] [1, 2]) listAll))) =
     ComplaintsData [noise, leak]"
    by (simp add: getAllComplaintsForAdminHandler_def listAll_def post_def env_def trim_demo
        findAdmin_two userComplaints_stTwo respondWithJSON_def adminUser_def)
  show "Data (snd (snd (getAllComplaintsForAdminHandler stTwo (env [1, 2] [2, 1]) listAll))) =
     ComplaintsData [leak, noise]"
    by (simp add: getAllComplaintsForAdminHandler_def listAll_def post_def env_def trim_demo
        findAdmin_two userComplaints_stTwo respondWithJSON_def adminUser_def)
  show "[noise, leak] \<noteq> [leak, noise]" using noise_neq_leak by simp
qed

text \<open>
  An instance of the theorem for C7: Ann's two complaints, visited in both orders.
\<close>

theorem C7_same_records_any_order_witness:
  "rangeOrder (complaints stTwo) [1, 2] \<and> rangeOrder (complaints stTwo) [2, 1] \<and>
   mset (userComplaints stTwo [1, 2] 2) = mset (userComplaints stTwo [2, 1] 2) \<and>
   mset (allComplaints stTwo [1, 2]) = mset (allComplaints stTwo [2, 1]) \<and>
   set (allComplaints stTwo [1, 2]) = ran (complaints stTwo)"
  using C7_same_records_any_order[OF rangeOrder_stTwo(1) rangeOrder_stTwo(2), of 2]
    rangeOrder_stTwo
  by simp

lemma register_bo_ok:
  "registerOK stBoot (env [1] []) (register ''Bo'' ''dup@x.com'')
     \<lparr>RegisterRequest.Name = ''Bo'', RegisterRequest.Email = ''dup@x.com''\<rparr>"
  by (simp add: registerOK_def register_def post_def env_def trim_demo2 findUserByEmail_def
      rangeMap_def map_filter_def stBoot_def adminUser_def)

lemma register_bo_result:
  "registerHandler stBoot (env [1] []) (register ''Bo'' ''dup@x.com'') =
     (stBo, respondWithJSON StatusCreated
        \<lparr>Success = True, Message = ''User registered successfully'',
         Data = UserData boUser, Error = ''''\<rparr>)"
  by (subst registerHandler_created[OF register_bo_ok])
     (simp add: newUserOf_def trim_demo2 format_demo generateSecretCode_def env_def stBoot_def
        stBo_def boUser_def)

lemma register_cy_ok:
  "registerOK stBo (env [1, 2] []) (register ''Cy'' '' dup@x.com'')
     \<lparr>RegisterRequest.Name = ''Cy'', RegisterRequest.Email = '' dup@x.com''\<rparr>"
  by (simp add: registerOK_def register_def post_def env_def trim_demo2 findUserByEmail_def
      rangeMap_def map_filter_def stBo_def adminUser_def boUser_def)

lemma register_cy_result:
  "registerHandler stBo (env [1, 2] []) (register ''Cy'' '' dup@x.com'') =
     (stCy, respondWithJSON StatusCreated
        \<lparr>Success = True, Message = ''User registered successfully'',
         Data = UserData cyUser, Error = ''''\<rparr>)"
  by (subst registerHandler_created[OF register_cy_ok])
     (simp add: newUserOf_def trim_demo2 format_demo generateSecretCode_def env_def stBo_def
        stCy_def cyUser_def)

lemma register_dup_conflict:
  "registerHandler stBo (env [1, 2] []) (register ''Cy'' ''dup@x.com'') =
     (stBo, respondWithError StatusConflict ''User with this email already exists'')"
  by (simp add: registerHandler_def register_def post_def env_def trim_demo2 findUserByEmail_def
      rangeMap_def map_filter_def stBo_def adminUser_def boUser_def)

lemma legal_stBo: "legalEnv stBo (env [1, 2] [])"
  by (auto simp: legalEnv_def rangeOrder_def env_def stBo_def)

text \<open>
  Claim C1 (no two accounts share an e-mail address; a registration with a stored address
  is refused with Conflict). \<open>registerHandler\<close> looks the address up as it was received
  (line 163) and stores it trimmed (line 176). From the store after start-up, Bo registers
  with \<open>dup@x.com\<close>; a second registration with exactly that address is refused with 409;
  a second registration with one blank in front of the address is accepted with 201, and
  the store then holds accounts 2 and 3 with the same address \<open>dup@x.com\<close>.
\<close>

theorem C1_duplicate_email_after_trimming:
  "createDefaultAdmin storage = stBoot \<and> legalEnv stBoot (env [1] []) \<and>
   registerHandler stBoot (env [1] []) (register ''Bo'' ''dup@x.com'') =
     (stBo, respondWithJSON StatusCreated
        \<lparr>Success = True, Message = ''User registered successfully'',
         Data = UserData boUser, Error = ''''\<rparr>) \<and>
   legalEnv stBo (env [1, 2] []) \<and>
   registerHandler stBo (env [1, 2] []) (register ''Cy'' ''dup@x.com'') =
     (stBo, respondWithError StatusConflict ''User with this email already exists'') \<and>
   registerHandler stBo (env [1, 2] []) (register ''Cy'' '' dup@x.com'') =
     (stCy, respondWithJSON StatusCreated
        \<lparr>Success = True, Message = ''User registered successfully'',
         Data = UserData cyUser, Error = ''''\<rparr>) \<and>
   users stCy 2 = Some boUser \<and> users stCy 3 = Some cyUser \<and>
   User.Email boUser = ''dup@x.com'' \<and> User.Email cyUser = ''dup@x.com''"
proof (intro conjI)
  show "createDefaultAdmin storage = stBoot" by (rule boot)
  show "legalEnv stBoot (env [1] [])" by (rule legal_demo(1))
  show "registerHandler stBoot (env [1] []) (register ''Bo'' ''dup@x.com'') =
     (stBo, respondWithJSON StatusCreated
        \<lparr>Success = True, Message = ''User registered successfully'',
         Data = UserData boUser, Error = ''''\<rparr>)"
    by (rule register_bo_result)
  show "legalEnv stBo (env [1, 2] [])" by (rule legal_stBo)
  show "registerHandler stBo (env [1, 2] []) (register ''Cy'' ''dup@x.com'') =
     (stBo, respondWithError StatusConflict ''User with this email already exists'')"
    by (rule register_dup_conflict)
  show "registerHandler stBo (env [1, 2] []) (register ''Cy'' '' dup@x.com'') =
     (stCy, respondWithJSON StatusCreated
        \<lparr>Success = True, Message = ''User registered successfully'',
         Data = UserData cyUser, Error = ''''\<rparr>)"
    by (rule register_cy_result)
  show "users stCy 2 = Some boUser" "users stCy 3 = Some cyUser" by (simp_all add: stCy_def)
  show "User.Email boUser = ''dup@x.com''" "User.Email cyUser = ''dup@x.com''"
    by (simp_all add: boUser_def cyUser_def)
qed



lemma stResolved_lookup:
  "complaints stResolved 1 = Some noiseResolved"
  "users stResolved 2 = Some (annUser\<lparr>Complaints := [noiseResolved]\<rparr>)"
  by (simp_all add: stResolved_def)

lemma resolveNoise_status:
  "fst (snd (resolveComplaintHandler stFiled (env [1, 2] [1]) resolveNoise)) = StatusOK"
  by (simp add: resolveNoise_result respondWithJSON_def)

text \<open>
  An instance of the theorem for C3: the administrator resolves Ann's complaint 1.
\<close>

theorem C3_views_agree_on_resolution_witness:
  "reachable stFiled \<and>
   Body resolveNoise = Some \<lparr>ResolveComplaintRequest.SecretCode = ''ADMIN_SECRET_123'',
     ResolveComplaintRequest.ComplaintID = 1\<rparr> \<and>
   fst (snd (resolveComplaintHandler stFiled (env [1, 2] [1]) resolveNoise)) = StatusOK \<and>
   (\<exists>c u d. complaints stResolved 1 = Some c \<and> IsResolved c \<and>
      ResolvedAt c = ''2024-01-02 03:04:05'' \<and>
      users stResolved (UserID c) = Some u \<and> d \<in> set (Complaints u) \<and> Complaint.ID d = 1 \<and>
      IsResolved d \<and> ResolvedAt d = ''2024-01-02 03:04:05'')"
proof -
  have body: "Body resolveNoise = Some \<lparr>ResolveComplaintRequest.SecretCode = ''ADMIN_SECRET_123'',
     ResolveComplaintRequest.ComplaintID = 1\<rparr>"
    by (simp add: resolveNoise_def post_def)
  have st': "fst (resolveComplaintHandler stFiled (env [1, 2] [1]) resolveNoise) = stResolved"
    by (simp add: resolveNoise_result)
  have now: "getCurrentTime (Now (env [1, 2] [1])) = ''2024-01-02 03:04:05''"
    by (simp add: env_def format_demo)
  from C3_views_agree_on_resolution[OF reachable_stFiled] body resolveNoise_status
  have "\<exists>c u. complaints (fst (resolveComplaintHandler stFiled (env [1, 2] [1]) resolveNoise))
          (ResolveComplaintRequest.ComplaintID \<lparr>ResolveComplaintRequest.SecretCode = ''ADMIN_SECRET_123'',
             ResolveComplaintRequest.ComplaintID = 1\<rparr>) = Some c \<and>
        IsResolved c \<and> ResolvedAt c = getCurrentTime (Now (env [1, 2] [1])) \<and>
        users (fst (resolveComplaintHandler stFiled (env [1, 2] [1]) resolveNoise)) (UserID c) = Some u \<and>
        (\<exists>d\<in>set (Complaints u). Complaint.ID d = ResolveComplaintRequest.ComplaintID
            \<lparr>ResolveComplaintRequest.SecretCode = ''ADMIN_SECRET_123'',
             ResolveComplaintRequest.ComplaintID = 1\<rparr>) \<and>
        (\<forall>d\<in>set (Complaints u). Complaint.ID d = ResolveComplaintRequest.ComplaintID
            \<lparr>ResolveComplaintRequest.SecretCode = ''ADMIN_SECRET_123'',
             ResolveComplaintRequest.ComplaintID = 1\<rparr> \<longrightarrow>
           IsResolved d \<and> ResolvedAt d = getCurrentTime (Now (env [1, 2] [1])))"
    by blast
  then have "\<exists>c u d. complaints stResolved 1 = Some c \<and> IsResolved c \<and>
      ResolvedAt c = ''2024-01-02 03:04:05'' \<and>
      users stResolved (UserID c) = Some u \<and> d \<in> set (Complaints u) \<and> Complaint.ID d = 1 \<and>
      IsResolved d \<and> ResolvedAt d = ''2024-01-02 03:04:05''"
    unfolding st' now by (simp only: ResolveComplaintRequest.simps) blast
  with reachable_stFiled body resolveNoise_status show ?thesis by blast
qed

lemma trim_demo3:
  "TrimSpace ''Ben'' = ''Ben''" "TrimSpace ''ben@x.com'' = ''ben@x.com''"
  "TrimSpace ''SEC_5_4'' = ''SEC_5_4''"
  by code_simp+

lemma register_ben_ok:
  "registerOK stTwo (env [1, 2] [1, 2]) (register ''Ben'' ''ben@x.com'')
     \<lparr>RegisterRequest.Name = ''Ben'', RegisterRequest.Email = ''ben@x.com''\<rparr>"
  by (simp add: registerOK_def register_def post_def env_def trim_demo3 findUserByEmail_def
      rangeMap_def map_filter_def stTwo_def adminUser_def annUser_def)

lemma register_ben_result:
  "registerHandler stTwo (env [1, 2] [1, 2]) (register ''Ben'' ''ben@x.com'') =
     (stBen, respondWithJSON StatusCreated
        \<lparr>Success = True, Message = ''User registered successfully'',
         Data = UserData benUser, Error = ''''\<rparr>)"
  by (subst registerHandler_created[OF register_ben_ok])
     (simp add: newUserOf_def trim_demo3 format_demo generateSecretCode_def env_def stTwo_def
        stBen_def benUser_def)

lemma reachable_stBen: "reachable stBen"
proof -
  have legal: "legalEnv stTwo (env [1, 2] [1, 2])"
    using rangeOrder_stTwo by (simp add: legalEnv_def env_def)
  have "reaches (createDefaultAdmin storage)
      (fst (serve stTwo (env [1, 2] [1, 2]) (Register (register ''Ben'' ''ben@x.com''))))"
    by (rule reaches_step[OF reachable_stTwo[unfolded reachable_def] legal])
  then show ?thesis by (simp add: reachable_def register_ben_result)
qed

lemma find_stBen:
  "findUserBySecretCode stBen [3, 1, 2] ''SEC_5_4'' = Some (3, benUser)"
  "findUserBySecretCode stBen [3, 1, 2] ''SEC_5_3'' = Some (2, annUser\<lparr>Complaints := [noise, leak]\<rparr>)"
  "findUserBySecretCode stBen [3, 1, 2] ''ADMIN_SECRET_123'' = Some (1, adminUser)"
  by (simp_all add: findUserBySecretCode_def rangeMap_def map_filter_def stBen_def benUser_def
      annUser_def adminUser_def)

lemma viewAs_simps:
  "Method (viewAs code cid) = MethodPost"
  "Body (viewAs code cid) = Some \<lparr>ViewComplaintRequest.SecretCode = code,
     ViewComplaintRequest.ComplaintID = cid\<rparr>"
  by (simp_all add: viewAs_def post_def)

text \<open>
  An instance of the theorem for C10: Ben is refused Ann's complaint 1 and gets 404 for
  id 7; Ann and the administrator see complaint 1.
\<close>

theorem C10_view_permission_witness:
  "reachable stBen \<and>
   findUserBySecretCode stBen (userOrder (env [3, 1, 2] [1, 2])) ''SEC_5_4'' = Some (3, benUser) \<and>
   findUserBySecretCode stBen (userOrder (env [3, 1, 2] [1, 2])) ''SEC_5_3'' =
     Some (2, annUser\<lparr>Complaints := [noise, leak]\<rparr>) \<and>
   findUserBySecretCode stBen (userOrder (env [3, 1, 2] [1, 2])) ''ADMIN_SECRET_123'' =
     Some (1, adminUser) \<and>
   complaints stBen 1 = Some noise \<and> complaints stBen 7 = None \<and> UserID noise = 2 \<and>
   fst (snd (viewComplaintHandler stBen (env [3, 1, 2] [1, 2]) (viewAs ''SEC_5_4'' 1))) =
     StatusForbidden \<and>
   snd (viewComplaintHandler stBen (env [3, 1, 2] [1, 2]) (viewAs ''SEC_5_4'' 7)) =
     respondWithError StatusNotFound ''Complaint not found'' \<and>
   fst (snd (viewComplaintHandler stBen (env [3, 1, 2] [1, 2]) (viewAs ''SEC_5_3'' 1))) =
     StatusOK \<and>
   Data (snd (snd (viewComplaintHandler stBen (env [3, 1, 2] [1, 2]) (viewAs ''SEC_5_3'' 1)))) =
     ComplaintData noise \<and>
   fst (snd (viewComplaintHandler stBen (env [3, 1, 2] [1, 2])
     (viewAs ''ADMIN_SECRET_123'' 1))) = StatusOK"
proof -
  have find: "findUserBySecretCode stBen (userOrder (env [3, 1, 2] [1, 2])) ''SEC_5_4'' = Some (3, benUser)"
    "findUserBySecretCode stBen (userOrder (env [3, 1, 2] [1, 2])) ''SEC_5_3'' =
       Some (2, annUser\<lparr>Complaints := [noise, leak]\<rparr>)"
    "findUserBySecretCode stBen (userOrder (env [3, 1, 2] [1, 2])) ''ADMIN_SECRET_123'' =
       Some (1, adminUser)"
    by (simp_all add: env_def find_stBen)
  have look: "complaints stBen 1 = Some noise" "complaints stBen 7 = None" "UserID noise = 2"
    by (simp_all add: stBen_def noise_def)
  have who: "\<not> IsAdmin benUser" "User.ID benUser = 3" "IsAdmin adminUser"
    "User.ID (annUser\<lparr>Complaints := [noise, leak]\<rparr>) = 2"
    by (simp_all add: benUser_def adminUser_def annUser_def)
  from C10_view_permission[of "viewAs ''SEC_5_4'' 1" _ stBen "env [3, 1, 2] [1, 2]" 3 benUser]
  have a: "fst (snd (viewComplaintHandler stBen (env [3, 1, 2] [1, 2]) (viewAs ''SEC_5_4'' 1))) =
     StatusForbidden"
    by (simp add: viewAs_simps trim_demo3 find look who)
  from C10_view_permission[of "viewAs ''SEC_5_4'' 7" _ stBen "env [3, 1, 2] [1, 2]" 3 benUser]
  have b: "snd (viewComplaintHandler stBen (env [3, 1, 2] [1, 2]) (viewAs ''SEC_5_4'' 7)) =
     respondWithError StatusNotFound ''Complaint not found''"
    by (simp add: viewAs_simps trim_demo3 find look who)
  from C10_view_permission[of "viewAs ''SEC_5_3'' 1" _ stBen "env [3, 1, 2] [1, 2]" 2
      "annUser\<lparr>Complaints := [noise, leak]\<rparr>"]
  have c: "fst (snd (viewComplaintHandler stBen (env [3, 1, 2] [1, 2]) (viewAs ''SEC_5_3'' 1))) =
       StatusOK \<and>
     Data (snd (snd (viewComplaintHandler stBen (env [3, 1, 2] [1, 2]) (viewAs ''SEC_5_3'' 1)))) =
       ComplaintData noise"
    by (simp add: viewAs_simps trim_demo find look who)
  from C10_view_permission[of "viewAs ''ADMIN_SECRET_123'' 1" _ stBen "env [3, 1, 2] [1, 2]" 1
      adminUser]
  have d: "fst (snd (viewComplaintHandler stBen (env [3, 1, 2] [1, 2])
     (viewAs ''ADMIN_SECRET_123'' 1))) = StatusOK"
    by (simp add: viewAs_simps trim_demo find look who)
  from reachable_stBen find look a b c d show ?thesis by blast
qed

lemma submitLeak_simps:
  "Method (submitLeak rating) = MethodPost"
  "Body (submitLeak rating) = Some \<lparr>SubmitComplaintRequest.SecretCode = ''SEC_5_3'',
     SubmitComplaintRequest.Title = ''Leak'', SubmitComplaintRequest.Summary = ''Pipe drips'',
     SubmitComplaintRequest.Rating = rating\<rparr>"
  by (simp_all add: submitLeak_def post_def)

text \<open>
  An instance of the theorem for C8: Ann submits with ratings 1, 10, 0 and 11.
\<close>

theorem C8_rating_range_witness:
  "reachable stFiled \<and>
   findUserBySecretCode stFiled (userOrder (env [1, 2] [1])) ''SEC_5_3'' =
     Some (2, annUser\<lparr>Complaints := [noise]\<rparr>) \<and>
   fst (snd (submitComplaintHandler stFiled (env [1, 2] [1]) (submitLeak 1))) = StatusCreated \<and>
   fst (snd (submitComplaintHandler stFiled (env [1, 2] [1]) (submitLeak 10))) = StatusCreated \<and>
   fst (snd (submitComplaintHandler stFiled (env [1, 2] [1]) (submitLeak 0))) = StatusBadRequest \<and>
   fst (submitComplaintHandler stFiled (env [1, 2] [1]) (submitLeak 0)) = stFiled \<and>
   fst (snd (submitComplaintHandler stFiled (env [1, 2] [1]) (submitLeak 11))) = StatusBadRequest \<and>
   fst (submitComplaintHandler stFiled (env [1, 2] [1]) (submitLeak 11)) = stFiled"
proof -
  have find: "findUserBySecretCode stFiled (userOrder (env [1, 2] [1])) ''SEC_5_3'' =
     Some (2, annUser\<lparr>Complaints := [noise]\<rparr>)"
    by (simp add: env_def findAnn_filed)
  from C8_rating_range[OF submitLeak_simps, of 1 stFiled "env [1, 2] [1]" 2
      "annUser\<lparr>Complaints := [noise]\<rparr>"]
  have a: "fst (snd (submitComplaintHandler stFiled (env [1, 2] [1]) (submitLeak 1))) = StatusCreated"
    by (simp add: trim_demo trim_demo2 find)
  from C8_rating_range[OF submitLeak_simps, of 10 stFiled "env [1, 2] [1]" 2
      "annUser\<lparr>Complaints := [noise]\<rparr>"]
  have b: "fst (snd (submitComplaintHandler stFiled (env [1, 2] [1]) (submitLeak 10))) = StatusCreated"
    by (simp add: trim_demo trim_demo2 find)
  from C8_rating_range[OF submitLeak_simps, of 0 stFiled "env [1, 2] [1]"]
  have c: "fst (snd (submitComplaintHandler stFiled (env [1, 2] [1]) (submitLeak 0))) = StatusBadRequest"
    "fst (submitComplaintHandler stFiled (env [1, 2] [1]) (submitLeak 0)) = stFiled"
    by simp_all
  from C8_rating_range[OF submitLeak_simps, of 11 stFiled "env [1, 2] [1]"]
  have d: "fst (snd (submitComplaintHandler stFiled (env [1, 2] [1]) (submitLeak 11))) = StatusBadRequest"
    "fst (submitComplaintHandler stFiled (env [1, 2] [1]) (submitLeak 11)) = stFiled"
    by simp_all
  from reachable_stFiled find a b c d show ?thesis by blast
qed

lemma findAdmin_resolved:
  "findUserBySecretCode stResolved (userOrder (env [1, 2] [1])) ''ADMIN_SECRET_123'' =
     Some (1, adminUser)"
  by (simp add: env_def findUserBySecretCode_def rangeMap_def map_filter_def stResolved_def
      adminUser_def)

lemma resolveNoise_simps:
  "Method resolveNoise = MethodPost"
  "Body resolveNoise = Some \<lparr>ResolveComplaintRequest.SecretCode = ''ADMIN_SECRET_123'',
     ResolveComplaintRequest.ComplaintID = 1\<rparr>"
  by (simp_all add: resolveNoise_def post_def)

text \<open>
  An instance of the theorem for C4: resolving complaint 1 a second time is refused and
  leaves the store as it was.
\<close>

theorem C4_resolve_outcomes_witness:
  "reachable stResolved \<and>
   findUserBySecretCode stResolved (userOrder (env [1, 2] [1])) ''ADMIN_SECRET_123'' =
     Some (1, adminUser) \<and>
   IsAdmin adminUser \<and> complaints stResolved 1 = Some noiseResolved \<and> IsResolved noiseResolved \<and>
   snd (resolveComplaintHandler stResolved (env [1, 2] [1]) resolveNoise) =
     respondWithError StatusBadRequest ''Complaint is already resolved'' \<and>
   fst (resolveComplaintHandler stResolved (env [1, 2] [1]) resolveNoise) = stResolved"
proof -
  have facts: "IsAdmin adminUser" "IsResolved noiseResolved"
    by (simp_all add: adminUser_def noiseResolved_def)
  from C4_resolve_outcomes[of stResolved "env [1, 2] [1]" resolveNoise
      "\<lparr>ResolveComplaintRequest.SecretCode = ''ADMIN_SECRET_123'',
        ResolveComplaintRequest.ComplaintID = 1\<rparr>" 1 adminUser]
  have "snd (resolveComplaintHandler stResolved (env [1, 2] [1]) resolveNoise) =
     respondWithError StatusBadRequest ''Complaint is already resolved'' \<and>
   fst (resolveComplaintHandler stResolved (env [1, 2] [1]) resolveNoise) = stResolved"
    by (simp add: resolveNoise_simps trim_demo findAdmin_resolved facts stResolved_lookup
        respondWithError_def respondWithJSON_def)
  with reachable_stResolved findAdmin_resolved facts stResolved_lookup show ?thesis by blast
qed

lemma legal_stResolved: "legalEnv stResolved (env [1, 2] [1])"
  by (auto simp: legalEnv_def rangeOrder_def env_def stResolved_def)

text \<open>
  An instance of the theorem for C5: complaint 1, once resolved, is the same after a
  further request.
\<close>

theorem C5_resolution_is_one_way_witness:
  "reachable stResolved \<and>
   reaches stResolved (fst (serve stResolved (env [1, 2] [1]) (ResolveComplaint resolveNoise))) \<and>
   complaints stResolved 1 = Some noiseResolved \<and> IsResolved noiseResolved \<and>
   ResolvedAt noiseResolved \<noteq> '''' \<and>
   complaints (fst (serve stResolved (env [1, 2] [1]) (ResolveComplaint resolveNoise))) 1 =
     Some noiseResolved"
proof -
  have step: "reaches stResolved
      (fst (serve stResolved (env [1, 2] [1]) (ResolveComplaint resolveNoise)))"
    by (rule reaches_step[OF reaches_refl legal_stResolved])
  have res: "IsResolved noiseResolved" by (simp add: noiseResolved_def)
  from C5_resolution_is_one_way[OF reachable_stResolved] step stResolved_lookup(1) res
  have "ResolvedAt noiseResolved \<noteq> ''''"
    and "complaints (fst (serve stResolved (env [1, 2] [1]) (ResolveComplaint resolveNoise))) 1 =
     Some noiseResolved"
    by blast+
  with reachable_stResolved step stResolved_lookup(1) res show ?thesis by blast
qed

lemma demoRun_result:
  "fst (run (createDefaultAdmin storage) demoRun) = stFiled"
  by (simp add: demoRun_def boot registerAnn_result submitNoise_result)

text \<open>
  An instance of the theorem for C6: the run in which Ann registers and files a complaint
  hands out account id 2 and complaint id 1.
\<close>

theorem C6_ids_from_counters_witness:
  "reachable stFiled \<and>
   createdUserIDs (snd (run (createDefaultAdmin storage) demoRun)) = [2] \<and>
   createdComplaintIDs (snd (run (createDefaultAdmin storage) demoRun)) = [1] \<and>
   dom (users stFiled) = {1 .. 2} \<and> dom (complaints stFiled) = {1 .. 1}"
proof -
  have gens: "userIDGen stFiled = 2" "compIDGen stFiled = 1"
    "compIDGen (createDefaultAdmin storage) = 0"
    by (simp_all add: stFiled_def boot stBoot_def)
  from C6_ids_from_counters[of demoRun stFiled] reachable_stFiled
  show ?thesis
    using C6_ids_from_counters[of demoRun "createDefaultAdmin storage"]
    by (simp add: demoRun_result gens)
qed

lemma trim_demo4:
  "TrimSpace ''Smell'' = ''Smell''" "TrimSpace ''Bins overflow'' = ''Bins overflow''"
  by code_simp+

lemma submitSmell_ok:
  "submitOK stBen (env [3, 1, 2] [1, 2]) submitSmell
     \<lparr>SubmitComplaintRequest.SecretCode = ''SEC_5_4'',
       SubmitComplaintRequest.Title = ''Smell'', SubmitComplaintRequest.Summary = ''Bins overflow'',
       SubmitComplaintRequest.Rating = 1\<rparr> 3 benUser"
  by (simp add: submitOK_def submitSmell_def post_def env_def trim_demo3 trim_demo4 find_stBen)

lemma submitSmell_result:
  "submitComplaintHandler stBen (env [3, 1, 2] [1, 2]) submitSmell =
     (stSmell, respondWithJSON StatusCreated
        \<lparr>Success = True, Message = ''Complaint submitted successfully'',
         Data = ComplaintData smell, Error = ''''\<rparr>)"
  by (subst submitComplaintHandler_created[OF submitSmell_ok])
     (simp add: newComplaintOf_def trim_demo4 format_demo env_def stBen_def stSmell_def
        benUser_def smell_def)

lemma reachable_stSmell: "reachable stSmell"
proof -
  have legal: "legalEnv stBen (env [3, 1, 2] [1, 2])"
    by (auto simp: legalEnv_def rangeOrder_def env_def stBen_def)
  have "reaches (createDefaultAdmin storage)
      (fst (serve stBen (env [3, 1, 2] [1, 2]) (SubmitComplaint submitSmell)))"
    by (rule reaches_step[OF reachable_stBen[unfolded reachable_def] legal])
  then show ?thesis by (simp add: reachable_def submitSmell_result)
qed

lemma rangeOrder_stSmell:
  "rangeOrder (complaints stSmell) [3, 1, 2]" "rangeOrder (complaints stSmell) [2, 3, 1]"
  by (auto simp: rangeOrder_def stSmell_def)

lemma allComplaints_stSmell: "allComplaints stSmell [2, 3, 1] = [leak, smell, noise]"
  by (simp add: allComplaints_def rangeMap_def map_filter_def stSmell_def)

lemma owners_demo: "UserID noise = 2" "UserID leak = 2" "UserID smell = 3"
  by (simp_all add: noise_def leak_def smell_def)

lemma findBen_smell:
  "findUserBySecretCode stSmell (userOrder (env [1, 2, 3] [3, 1, 2])) ''SEC_5_4'' =
     Some (3, benUser\<lparr>Complaints := [smell]\<rparr>)"
  by (simp add: env_def findUserBySecretCode_def rangeMap_def map_filter_def stSmell_def
      benUser_def annUser_def adminUser_def)

lemma listBen_simps:
  "Method listBen = MethodPost"
  "Body listBen = Some \<lparr>GetComplaintsRequest.SecretCode = ''SEC_5_4''\<rparr>"
  by (simp_all add: listBen_def post_def)

text \<open>
  An instance of the theorem for C9: a reachable store with three complaints, two of Ann
  and one of Ben. The full listing has all three; Ann's listing has her two, Ben's has
  his one, the administrator's is empty; and Ben's request is answered with his listing.
\<close>

theorem C9_user_view_from_authoritative_witness:
  "reachable stSmell \<and>
   rangeOrder (complaints stSmell) [3, 1, 2] \<and> rangeOrder (complaints stSmell) [2, 3, 1] \<and>
   allComplaints stSmell [2, 3, 1] = [leak, smell, noise] \<and>
   mset (userComplaints stSmell [3, 1, 2] 2) = {#leak, noise#} \<and>
   mset (userComplaints stSmell [3, 1, 2] 3) = {#smell#} \<and>
   mset (userComplaints stSmell [3, 1, 2] 1) = {#} \<and>
   findUserBySecretCode stSmell (userOrder (env [1, 2, 3] [3, 1, 2])) ''SEC_5_4'' =
     Some (3, benUser\<lparr>Complaints := [smell]\<rparr>) \<and>
   Data (snd (snd (getAllComplaintsForUserHandler stSmell (env [1, 2, 3] [3, 1, 2]) listBen))) =
     ComplaintsData (userComplaints stSmell [3, 1, 2] 3)"
proof -
  note inst = C9_user_view_from_authoritative[OF rangeOrder_stSmell(1) rangeOrder_stSmell(2)]
  have all: "mset (allComplaints stSmell [2, 3, 1]) = {#leak, smell, noise#}"
    by (simp add: allComplaints_stSmell)
  from inst[of 2] have "mset (userComplaints stSmell [3, 1, 2] 2) =
      filter_mset (\<lambda>c. UserID c = 2) (mset (allComplaints stSmell [2, 3, 1]))"
    by blast
  then have a: "mset (userComplaints stSmell [3, 1, 2] 2) = {#leak, noise#}"
    by (simp only: all) (simp add: owners_demo)
  from inst[of 3] have "mset (userComplaints stSmell [3, 1, 2] 3) =
      filter_mset (\<lambda>c. UserID c = 3) (mset (allComplaints stSmell [2, 3, 1]))"
    by blast
  then have b: "mset (userComplaints stSmell [3, 1, 2] 3) = {#smell#}"
    by (simp only: all) (simp add: owners_demo)
  from inst[of 1] have "mset (userComplaints stSmell [3, 1, 2] 1) =
      filter_mset (\<lambda>c. UserID c = 1) (mset (allComplaints stSmell [2, 3, 1]))"
    by blast
  then have c: "mset (userComplaints stSmell [3, 1, 2] 1) = {#}"
    by (simp only: all) (simp add: owners_demo)
  have ord: "complaintOrder (env [1, 2, 3] [3, 1, 2]) = [3, 1, 2]"
    and id: "User.ID (benUser\<lparr>Complaints := [smell]\<rparr>) = 3"
    and nonblank: "TrimSpace (GetComplaintsRequest.SecretCode
      \<lparr>GetComplaintsRequest.SecretCode = ''SEC_5_4''\<rparr>) \<noteq> []"
    and code: "GetComplaintsRequest.SecretCode
      \<lparr>GetComplaintsRequest.SecretCode = ''SEC_5_4''\<rparr> = ''SEC_5_4''"
    by (simp_all add: env_def benUser_def trim_demo3)
  from C9_user_view_from_authoritative[where r = listBen and e = "env [1, 2, 3] [3, 1, 2]"
      and p = 3 and user = "benUser\<lparr>Complaints := [smell]\<rparr>" and uid = 3
      and req = "\<lparr>GetComplaintsRequest.SecretCode = ''SEC_5_4''\<rparr>" and us = "users stSmell",
      OF rangeOrder_stSmell(1) rangeOrder_stSmell(2)]
    listBen_simps nonblank findBen_smell ord code
  have "Data (snd (snd (getAllComplaintsForUserHandler stSmell (env [1, 2, 3] [3, 1, 2])
      listBen))) = ComplaintsData (userComplaints stSmell [3, 1, 2]
        (User.ID (benUser\<lparr>Complaints := [smell]\<rparr>)))"
    by (metis (no_types))
  then have d: "Data (snd (snd (getAllComplaintsForUserHandler stSmell (env [1, 2, 3] [3, 1, 2])
      listBen))) = ComplaintsData (userComplaints stSmell [3, 1, 2] 3)"
    by (simp only: id)
  from reachable_stSmell rangeOrder_stSmell allComplaints_stSmell a b c findBen_smell d
  show ?thesis by blast
qed




end
